theory Spec2Isabelle
  imports Main "HOL-Library.Word" "HOL-Library.Sublist"
begin

section \<open>The background service worker of the Style Me extension\<close>

text \<open>
  The development embeds the caching background script (the second module of
  \<^verbatim>\<open>src/unnamed/part_001\<close>, lines 665--1720): the product image cache on
  \<^verbatim>\<open>chrome.storage.local\<close>, the image fetcher \<^verbatim>\<open>convertUrlToBase64\<close>, the extractor
  \<^verbatim>\<open>extractActualProductImage\<close> and the progressive composer \<^verbatim>\<open>generateOutfitImage\<close>.

  Every asynchronous function of the script becomes a function from a \<^emph>\<open>world\<close> (the
  storage contents, a logical clock that counts the external calls made so far, and the
  trace of those calls) to a result and the next world. A rejected promise or a thrown
  exception is \<open>Inl\<close> of an error value, a fulfilled one is \<open>Inr\<close>. What the network, the
  remote model, the storage backend and the system clock answer is given by an environment
  of oracles, indexed by the logical clock, so that the same request may be answered
  differently at different moments.
\<close>

subsection \<open>JavaScript values and strings\<close>

text \<open>
  Strings are lists of 8-bit characters. \<open>JObject\<close> stands for any object or array that has
  no property the script reads; numbers are the integers (timestamps in milliseconds).
\<close>

datatype jsval = JUndefined | JNull | JBool bool | JNum int | JStr string | JObject

text \<open>JavaScript truthiness (the conversion an \<^verbatim>\<open>if\<close> or \<^verbatim>\<open>&&\<close> applies).\<close>

fun truthy :: "jsval \<Rightarrow> bool" where
  "truthy JUndefined = False"
| "truthy JNull = False"
| "truthy (JBool b) = b"
| "truthy (JNum n) = (n \<noteq> 0)"
| "truthy (JStr s) = (s \<noteq> [])"
| "truthy JObject = True"

text \<open>\<^verbatim>\<open>s.startsWith(p)\<close> and \<^verbatim>\<open>s.endsWith(p)\<close>.\<close>

definition startsWith :: "string \<Rightarrow> string \<Rightarrow> bool" where
  "startsWith s p = (take (length p) s = p)"

definition endsWith :: "string \<Rightarrow> string \<Rightarrow> bool" where
  "endsWith s p = (length p \<le> length s \<and> drop (length s - length p) s = p)"

text \<open>\<^verbatim>\<open>typeof v === 'string' && v.startsWith('data:')\<close>: the validation of a cached payload.\<close>

fun isDataUrlString :: "jsval \<Rightarrow> bool" where
  "isDataUrlString (JStr s) = startsWith s ''data:''"
| "isDataUrlString _ = False"

text \<open>
  The white space class \<^verbatim>\<open>\s\<close> of a regular expression, on 8-bit characters: tab, line
  feed, vertical tab, form feed, carriage return, space and no-break space.
\<close>

definition isSpace :: "char \<Rightarrow> bool" where
  "isSpace c = (of_char c \<in> {9::nat, 10, 11, 12, 13, 32, 160})"

text \<open>
  \<^verbatim>\<open>contentStr.match(/https?:\/\/[^\s]+/g)\<close> and its first element: the leftmost place where
  \<^verbatim>\<open>http://\<close> or \<^verbatim>\<open>https://\<close> is followed by at least one character that is not white space,
  together with the longest run of such characters. \<open>None\<close> is the \<^verbatim>\<open>null\<close> of no match.
\<close>

definition matchUrlAt :: "string \<Rightarrow> string option" where
  "matchUrlAt s =
     (let scheme = (if startsWith s ''https://'' then ''https://''
                    else if startsWith s ''http://'' then ''http://'' else [])
      in if scheme = [] then None
         else let body = takeWhile (\<lambda>c. \<not> isSpace c) (drop (length scheme) s)
              in if body = [] then None else Some (scheme @ body))"

fun firstUrl :: "string \<Rightarrow> string option" where
  "firstUrl [] = None"
| "firstUrl (c # cs) =
     (case matchUrlAt (c # cs) of Some u \<Rightarrow> Some u | None \<Rightarrow> firstUrl cs)"

subsection \<open>Cache keys\<close>

text \<open>
  \<^verbatim>\<open>generateUrlHash\<close> (lines 677--685): \<^verbatim>\<open>hash = (hash << 5) - hash + char; hash = hash & hash\<close>
  over the characters is arithmetic on 32-bit integers; the result is the absolute value
  of the signed reading, printed in base 36.
\<close>

definition digit36 :: "nat \<Rightarrow> char" where
  "digit36 d = (if d < 10 then char_of (48 + d) else char_of (87 + d))"

function toString36 :: "nat \<Rightarrow> string" where
  "toString36 n = (if n < 36 then [digit36 n] else toString36 (n div 36) @ [digit36 (n mod 36)])"
  by pat_completeness auto
termination
  by (relation "measure id") auto

declare toString36.simps [simp del]

definition hashStep :: "32 word \<Rightarrow> char \<Rightarrow> 32 word" where
  "hashStep hash c = push_bit 5 hash - hash + of_nat (of_char c)"

definition generateUrlHash :: "string \<Rightarrow> string" where
  "generateUrlHash url = toString36 (nat \<bar>sint (foldl hashStep 0 url)\<bar>)"

definition cacheKeyOf :: "string \<Rightarrow> string" where
  "cacheKeyOf productImageUrl = ''productImage_'' @ generateUrlHash productImageUrl"

definition isCacheKey :: "string \<Rightarrow> bool" where
  "isCacheKey key = startsWith key ''productImage_''"

subsection \<open>Storage, requests, responses and the world\<close>

text \<open>
  A stored value is either an object with the properties of a cache entry (\<^verbatim>\<open>image\<close>, any
  value, \<open>JUndefined\<close> when the property is missing; \<^verbatim>\<open>timestamp\<close>, a number or missing;
  \<^verbatim>\<open>url\<close>), or any other value, which has none of these properties.
\<close>

datatype stored =
    CacheData (entryImage: jsval) (entryTimestamp: "int option") (entryUrl: string)
  | Plain jsval

fun storedTruthy :: "stored \<Rightarrow> bool" where
  "storedTruthy (CacheData _ _ _) = True"
| "storedTruthy (Plain v) = truthy v"

text \<open>The remote model is asked for a composition or for an extraction.\<close>

datatype request =
    ComposeRequest (reqKey: string) (reqName: string) (reqBase: string) (reqApparel: string)
  | ExtractRequest (reqKey: string) (reqName: string) (reqSource: string)

text \<open>
  The answer to the \<^verbatim>\<open>fetch\<close> of an image: status, the \<^verbatim>\<open>content-type\<close> header and the blob,
  whose data URL is \<^verbatim>\<open>data:<type>;base64,<data>\<close>.
\<close>

record imageResponse =
  imgOk :: bool
  imgStatus :: nat
  imgContentType :: "string option"
  blobType :: string
  blobData :: string

text \<open>
  \<^verbatim>\<open>data.choices[0].message\<close> of a completion: \<^verbatim>\<open>content\<close> (\<open>None\<close> when it is not a string) and
  \<^verbatim>\<open>images\<close> (empty when missing), each image with its \<^verbatim>\<open>image_url.url\<close> (\<open>None\<close> when missing).
\<close>

datatype imagePart = ImagePart (partUrl: "string option")

record message =
  content :: "string option"
  images :: "imagePart list"

text \<open>
  The body of an answer as \<^verbatim>\<open>response.json()\<close> and \<^verbatim>\<open>data.choices[0].message\<close> read it: no JSON
  document at all (\<^verbatim>\<open>json()\<close> throws a SyntaxError), a JSON document without a
  \<^verbatim>\<open>choices[0].message\<close> (reading it throws a TypeError), or a document with a message.
\<close>

datatype jsonBody = NotJson | NoMessage | Message message

text \<open>The answer to the POST: status, the body as text, and the body as JSON.\<close>

record apiResponse =
  apiOk :: bool
  apiStatus :: nat
  apiText :: string
  apiBody :: jsonBody

datatype event =
    EvFetch string
  | EvPost request
  | EvStorageGet string
  | EvStorageGetAll
  | EvStorageSet string stored
  | EvStorageRemove "string list"

datatype task = CleanupOldCachedImages

record world =
  store :: "(string \<times> stored) list"
  tick :: nat
  trace :: "event list"
  timers :: "(int \<times> task) list"

text \<open>
  The environment: what a GET of an image URL and a POST to the model answer at a given
  moment (\<open>None\<close>: the \<^verbatim>\<open>fetch\<close> promise rejects), whether a storage call made at that moment
  fails, what \<^verbatim>\<open>Date.now()\<close> returns, and the path name \<^verbatim>\<open>new URL(u).pathname\<close> of a URL
  (\<open>None\<close>: the constructor throws).
\<close>

record env =
  httpGet :: "nat \<Rightarrow> string \<Rightarrow> imageResponse option"
  apiPost :: "nat \<Rightarrow> request \<Rightarrow> apiResponse option"
  storageFault :: "nat \<Rightarrow> bool"
  clock :: "nat \<Rightarrow> int"
  urlPathname :: "string \<Rightarrow> string option"

text \<open>
  The errors, one constructor for each message the script throws:
  \<^item> \<open>ApiKeyRequired\<close>: \<^verbatim>\<open>API key is required\<close>;
  \<^item> \<open>FetchFailed status\<close>: \<^verbatim>\<open>Failed to fetch image: ${status}\<close>;
  \<^item> \<open>OpenRouterApiError name status text\<close>: \<^verbatim>\<open>OpenRouter API Error for ${name}: ${status} ${text}\<close>;
  \<^item> \<open>FailedToGenerate name\<close>: \<^verbatim>\<open>Failed to generate image for ${name}\<close>;
  \<^item> \<open>ExtractApiError name status text\<close>: \<^verbatim>\<open>Failed to extract product image for ${name}: ${status} ${text}\<close>;
  \<^item> \<open>FailedToExtract name\<close>: \<^verbatim>\<open>Failed to extract product image for ${name}\<close>;
  \<^item> \<open>StorageError\<close>, \<open>NetworkError\<close>, \<open>TypeError\<close>, \<open>SyntaxError\<close>: what the platform throws.
\<close>

datatype error =
    ApiKeyRequired
  | FetchFailed nat
  | OpenRouterApiError string nat string
  | FailedToGenerate string
  | ExtractApiError string nat string
  | FailedToExtract string
  | StorageError
  | NetworkError
  | TypeError
  | SyntaxError

text \<open>The product an error message names, if any.\<close>

fun errorItem :: "error \<Rightarrow> string option" where
  "errorItem (OpenRouterApiError name _ _) = Some name"
| "errorItem (FailedToGenerate name) = Some name"
| "errorItem (ExtractApiError name _ _) = Some name"
| "errorItem (FailedToExtract name) = Some name"
| "errorItem _ = None"

record product =
  prodName :: string
  prodImage :: string

text \<open>One external call: the clock advances and the call is logged.\<close>

definition logged :: "event \<Rightarrow> world \<Rightarrow> world" where
  "logged ev w = w\<lparr>tick := Suc (tick w), trace := trace w @ [ev]\<rparr>"

subsection \<open>\<^verbatim>\<open>chrome.storage.local\<close>\<close>

definition storageGet :: "env \<Rightarrow> string \<Rightarrow> world \<Rightarrow> (error + stored option) \<times> world" where
  "storageGet e key w =
     (if storageFault e (tick w) then (Inl StorageError, logged (EvStorageGet key) w)
      else (Inr (map_of (store w) key), logged (EvStorageGet key) w))"

definition storageGetAll :: "env \<Rightarrow> world \<Rightarrow> (error + (string \<times> stored) list) \<times> world" where
  "storageGetAll e w =
     (if storageFault e (tick w) then (Inl StorageError, logged EvStorageGetAll w)
      else (Inr (store w), logged EvStorageGetAll w))"

definition storageSet :: "env \<Rightarrow> string \<Rightarrow> stored \<Rightarrow> world \<Rightarrow> (error + unit) \<times> world" where
  "storageSet e key v w =
     (if storageFault e (tick w) then (Inl StorageError, logged (EvStorageSet key v) w)
      else (Inr (),
            logged (EvStorageSet key v)
              (w\<lparr>store := (key, v) # filter (\<lambda>kv. fst kv \<noteq> key) (store w)\<rparr>)))"

definition storageRemove :: "env \<Rightarrow> string list \<Rightarrow> world \<Rightarrow> (error + unit) \<times> world" where
  "storageRemove e keys w =
     (if storageFault e (tick w) then (Inl StorageError, logged (EvStorageRemove keys) w)
      else (Inr (),
            logged (EvStorageRemove keys)
              (w\<lparr>store := filter (\<lambda>kv. fst kv \<notin> set keys) (store w)\<rparr>)))"

subsection \<open>The product image cache\<close>

text \<open>\<^verbatim>\<open>value.image\<close> of a stored value that is neither \<^verbatim>\<open>null\<close> nor \<^verbatim>\<open>undefined\<close>.\<close>

fun propImage :: "stored \<Rightarrow> jsval" where
  "propImage (CacheData img _ _) = img"
| "propImage (Plain _) = JUndefined"

text \<open>
  \<^verbatim>\<open>value.timestamp\<close>: reading a property of \<^verbatim>\<open>null\<close> or \<^verbatim>\<open>undefined\<close> throws a TypeError.
\<close>

fun propTimestamp :: "stored \<Rightarrow> error + int option" where
  "propTimestamp (CacheData _ ts _) = Inr ts"
| "propTimestamp (Plain JNull) = Inl TypeError"
| "propTimestamp (Plain JUndefined) = Inl TypeError"
| "propTimestamp (Plain _) = Inr None"

text \<open>The entry \<^verbatim>\<open>getCachedProductImage\<close> returns: its \<^verbatim>\<open>image\<close> has been validated as a string.\<close>

record cachedImage =
  hitImage :: string
  hitTimestamp :: "int option"
  hitUrl :: string

fun theString :: "jsval \<Rightarrow> string" where
  "theString (JStr s) = s"
| "theString _ = []"

fun hitOf :: "stored \<Rightarrow> cachedImage" where
  "hitOf (CacheData img ts u) = \<lparr>hitImage = theString img, hitTimestamp = ts, hitUrl = u\<rparr>"
| "hitOf (Plain _) = \<lparr>hitImage = [], hitTimestamp = None, hitUrl = []\<rparr>"

text \<open>
  \<^verbatim>\<open>getCachedProductImage\<close> (lines 692--719). The \<^verbatim>\<open>catch\<close> around the whole body returns
  \<^verbatim>\<open>null\<close>, here \<open>Inr None\<close>, for a storage call that fails.
\<close>

definition getCachedProductImage ::
  "env \<Rightarrow> string \<Rightarrow> world \<Rightarrow> (error + cachedImage option) \<times> world" where
  "getCachedProductImage env productImageUrl w =
     (let cacheKey = cacheKeyOf productImageUrl in
      case storageGet env cacheKey w of
        (Inl err, w1) \<Rightarrow> (Inr None, w1)
      | (Inr None, w1) \<Rightarrow> (Inr None, w1)
      | (Inr (Some v), w1) \<Rightarrow>
          if storedTruthy v \<and> truthy (propImage v) then
            if isDataUrlString (propImage v) then (Inr (Some (hitOf v)), w1)
            else (case storageRemove env [cacheKey] w1 of
                    (Inl err, w2) \<Rightarrow> (Inr None, w2)
                  | (Inr u, w2) \<Rightarrow> (Inr None, w2))
          else (Inr None, w1))"

text \<open>
  \<^verbatim>\<open>cacheProductImage\<close> (lines 726--743): the \<^verbatim>\<open>catch\<close> only logs, so the call returns
  normally whether the write succeeded or not.
\<close>

definition cacheProductImage ::
  "env \<Rightarrow> string \<Rightarrow> string \<Rightarrow> world \<Rightarrow> (error + unit) \<times> world" where
  "cacheProductImage env productImageUrl base64Image w =
     (let cacheKey = cacheKeyOf productImageUrl;
          cacheData = CacheData (JStr base64Image) (Some (clock env (tick w))) productImageUrl
      in case storageSet env cacheKey cacheData w of
           (Inl err, w1) \<Rightarrow> (Inr (), w1)
         | (Inr u, w1) \<Rightarrow> (Inr (), w1))"

text \<open>
  The loop of \<^verbatim>\<open>cleanupOldCachedImages\<close> (lines 755--761) over \<^verbatim>\<open>Object.entries(result)\<close>,
  collecting \<^verbatim>\<open>keysToRemove\<close>.
\<close>

fun collectOld :: "int \<Rightarrow> int \<Rightarrow> (string \<times> stored) list \<Rightarrow> string list \<Rightarrow> error + string list" where
  "collectOld now maxAge [] keysToRemove = Inr keysToRemove"
| "collectOld now maxAge ((key, v) # rest) keysToRemove =
     (if startsWith key ''productImage_'' then
        (case propTimestamp v of
           Inl err \<Rightarrow> Inl err
         | Inr None \<Rightarrow> collectOld now maxAge rest keysToRemove
         | Inr (Some ts) \<Rightarrow>
             if ts \<noteq> 0 then
               if now - ts > maxAge then collectOld now maxAge rest (keysToRemove @ [key])
               else collectOld now maxAge rest keysToRemove
             else collectOld now maxAge rest keysToRemove)
      else collectOld now maxAge rest keysToRemove)"

text \<open>\<^verbatim>\<open>cleanupOldCachedImages\<close> (lines 749--770); every error is caught and logged.\<close>

definition cleanupOldCachedImages :: "env \<Rightarrow> int \<Rightarrow> world \<Rightarrow> (error + unit) \<times> world" where
  "cleanupOldCachedImages env maxAge w =
     (case storageGetAll env w of
        (Inl err, w1) \<Rightarrow> (Inr (), w1)
      | (Inr result, w1) \<Rightarrow>
          (case collectOld (clock env (tick w1)) maxAge result [] of
             Inl err \<Rightarrow> (Inr (), w1)
           | Inr keysToRemove \<Rightarrow>
               if length keysToRemove > 0 then
                 (case storageRemove env keysToRemove w1 of
                    (Inl err, w2) \<Rightarrow> (Inr (), w2)
                  | (Inr u, w2) \<Rightarrow> (Inr (), w2))
               else (Inr (), w1)))"

text \<open>The default value of the parameter: \<^verbatim>\<open>maxAge = 24 * 60 * 60 * 1000\<close>.\<close>

definition defaultMaxAge :: int where
  "defaultMaxAge = 24 * 60 * 60 * 1000"

text \<open>
  \<^verbatim>\<open>setupCacheCleanup\<close> (lines 1415--1423), called by \<^verbatim>\<open>init\<close> when the service is
  constructed: \<^verbatim>\<open>setInterval\<close> registers the sweep with its period, then the sweep runs once
  (the script does not wait for it; here it runs to its end before anything else).
\<close>

definition cleanupInterval :: int where
  "cleanupInterval = 6 * 60 * 60 * 1000"

definition setupCacheCleanup :: "env \<Rightarrow> world \<Rightarrow> (error + unit) \<times> world" where
  "setupCacheCleanup env w =
     cleanupOldCachedImages env defaultMaxAge
       (w\<lparr>timers := timers w @ [(cleanupInterval, CleanupOldCachedImages)]\<rparr>)"

text \<open>
  \<^verbatim>\<open>clearProductImageCache\<close> (lines 1428--1446); every error is caught and logged.
\<close>

definition clearProductImageCache :: "env \<Rightarrow> world \<Rightarrow> (error + unit) \<times> world" where
  "clearProductImageCache env w =
     (case storageGetAll env w of
        (Inl err, w1) \<Rightarrow> (Inr (), w1)
      | (Inr result, w1) \<Rightarrow>
          (let keysToRemove = filter (\<lambda>key. startsWith key ''productImage_'') (map fst result)
           in if length keysToRemove > 0 then
                (case storageRemove env keysToRemove w1 of
                   (Inl err, w2) \<Rightarrow> (Inr (), w2)
                 | (Inr u, w2) \<Rightarrow> (Inr (), w2))
              else (Inr (), w1)))"

text \<open>
  \<^verbatim>\<open>getCacheInfo\<close> (lines 775--828): the number of cache keys and of valid entries. The size
  estimates, which are only logged, are left out. A storage failure is thrown again.
\<close>

record cacheInfo =
  totalCachedImages :: nat
  validCachedImages :: nat

definition getCacheInfo :: "env \<Rightarrow> world \<Rightarrow> (error + cacheInfo) \<times> world" where
  "getCacheInfo env w =
     (case storageGetAll env w of
        (Inl err, w1) \<Rightarrow> (Inl err, w1)
      | (Inr result, w1) \<Rightarrow>
          (let cacheItems = filter (\<lambda>kv. startsWith (fst kv) ''productImage_'') result
           in (Inr \<lparr>totalCachedImages = length cacheItems,
                    validCachedImages =
                      length (filter (\<lambda>kv. storedTruthy (snd kv) \<and> truthy (propImage (snd kv))
                                            \<and> isDataUrlString (propImage (snd kv))) cacheItems)\<rparr>,
               w1)))"

subsection \<open>The image fetcher\<close>

text \<open>
  \<^verbatim>\<open>pathname.toLowerCase()\<close>; the path name of a parsed URL is ASCII, so only the letters
  \<open>A\<close> to \<open>Z\<close> change.
\<close>

definition toLowerCase :: "string \<Rightarrow> string" where
  "toLowerCase s =
     map (\<lambda>c. if 65 \<le> (of_char c :: nat) \<and> (of_char c :: nat) \<le> 90
               then char_of ((of_char c :: nat) + 32) else c) s"

text \<open>The extension table of lines 864--874.\<close>

definition mimeFromPathname :: "string \<Rightarrow> string" where
  "mimeFromPathname pathname =
     (if endsWith pathname ''.jpg'' \<or> endsWith pathname ''.jpeg'' then ''image/jpeg''
      else if endsWith pathname ''.png'' then ''image/png''
      else if endsWith pathname ''.webp'' then ''image/webp''
      else if endsWith pathname ''.gif'' then ''image/gif''
      else ''image/jpeg'')"

text \<open>
  The replacement text of \<^verbatim>\<open>String.prototype.replace\<close> for a pattern without groups:
  \<^verbatim>\<open>$$\<close> stands for a dollar sign, \<^verbatim>\<open>$&\<close> for the matched text, \<^verbatim>\<open>$`\<close> for the text before the
  match and \<^verbatim>\<open>$'\<close> for the text after it; every other character stands for itself.
\<close>

fun expandReplacement :: "string \<Rightarrow> string \<Rightarrow> string \<Rightarrow> string \<Rightarrow> string" where
  "expandReplacement matched pre post [] = []"
| "expandReplacement matched pre post [c] = [c]"
| "expandReplacement matched pre post (c # d # cs) =
     (if c = CHR ''$'' then
        (if d = CHR ''$'' then CHR ''$'' # expandReplacement matched pre post cs
         else if d = CHR ''&'' then matched @ expandReplacement matched pre post cs
         else if d = CHR 0x60 then pre @ expandReplacement matched pre post cs
         else if d = CHR 0x27 then post @ expandReplacement matched pre post cs
         else c # expandReplacement matched pre post (d # cs))
      else c # expandReplacement matched pre post (d # cs))"

text \<open>
  The match of \<^verbatim>\<open>.*?;base64,\<close> at the start of a string: the shortest text without a line
  terminator that ends in \<^verbatim>\<open>;base64,\<close>, and the rest of the string.
\<close>

fun splitAtBase64Marker :: "string \<Rightarrow> (string \<times> string) option" where
  "splitAtBase64Marker [] = None"
| "splitAtBase64Marker (c # cs) =
     (if startsWith (c # cs) '';base64,'' then Some ('';base64,'', drop 8 (c # cs))
      else if of_char c \<in> {10::nat, 13} then None
      else (case splitAtBase64Marker cs of
              None \<Rightarrow> None
            | Some (matched, rest) \<Rightarrow> Some (c # matched, rest)))"

text \<open>
  \<^verbatim>\<open>base64.replace(/^data:.*?;base64,/, `data:${mimeType};base64,`)\<close>: the shortest prefix
  \<^verbatim>\<open>data:...;base64,\<close> within the first line is replaced; without a match the string is
  unchanged.
\<close>

definition replaceMime :: "string \<Rightarrow> string \<Rightarrow> string" where
  "replaceMime base64 mimeType =
     (if startsWith base64 ''data:'' then
        (case splitAtBase64Marker (drop 5 base64) of
           Some (matched, rest) \<Rightarrow>
             expandReplacement (''data:'' @ matched) [] rest (''data:'' @ mimeType @ '';base64,'')
               @ rest
         | None \<Rightarrow> base64)
      else base64)"

text \<open>
  \<^verbatim>\<open>reader.readAsDataURL(blob)\<close>: the data URL of the blob, \<^verbatim>\<open>data:<type>;base64,<data>\<close>.
\<close>

definition readAsDataURL :: "imageResponse \<Rightarrow> string" where
  "readAsDataURL response = ''data:'' @ blobType response @ '';base64,'' @ blobData response"

text \<open>Lines 877--883: the data URL with the MIME type put in place when it differs.\<close>

definition withMimeType :: "string \<Rightarrow> string \<Rightarrow> string" where
  "withMimeType base64 mimeType =
     (if \<not> startsWith base64 (''data:'' @ mimeType) then replaceMime base64 mimeType
      else base64)"

text \<open>
  \<^verbatim>\<open>convertUrlToBase64\<close> (lines 835--893). The MIME type is the \<^verbatim>\<open>content-type\<close> header or,
  when it is missing or empty, comes from the path name of the URL.
\<close>

definition convertUrlToBase64 :: "env \<Rightarrow> string \<Rightarrow> world \<Rightarrow> (error + string) \<times> world" where
  "convertUrlToBase64 env imageUrl w =
     (let w1 = logged (EvFetch imageUrl) w in
      case httpGet env (tick w) imageUrl of
        None \<Rightarrow> (Inl NetworkError, w1)
      | Some response \<Rightarrow>
          if \<not> imgOk response then (Inl (FetchFailed (imgStatus response)), w1)
          else
            (let base64 = readAsDataURL response;
                 header = (case imgContentType response of None \<Rightarrow> [] | Some m \<Rightarrow> m)
             in case (if header = [] then
                        (case urlPathname env imageUrl of
                           None \<Rightarrow> Inl TypeError
                         | Some pathname \<Rightarrow> Inr (mimeFromPathname (toLowerCase pathname)))
                      else Inr header) of
                  Inl err \<Rightarrow> (Inl err, w1)
                | Inr mimeType \<Rightarrow> (Inr (withMimeType base64 mimeType), w1)))"

subsection \<open>Reading the image out of a completion\<close>

text \<open>
  The URL reached at \<^verbatim>\<open>const imageUrl = generatedImage.image_url.url\<close> (lines 1082--1093 and
  1297--1308): \<^verbatim>\<open>images\<close> is present and not empty, and the \<^verbatim>\<open>image_url.url\<close> of its first
  element is truthy.
\<close>

definition structuredUrl :: "message \<Rightarrow> string option" where
  "structuredUrl msg =
     (case images msg of
        [] \<Rightarrow> None
      | generatedImage # _ \<Rightarrow>
          (case partUrl generatedImage of
             None \<Rightarrow> None
           | Some u \<Rightarrow> if u \<noteq> [] then Some u else None))"

text \<open>
  Lines 1107--1122 of \<^verbatim>\<open>generateOutfitImage\<close>: the text of the answer is searched for URLs.
  \<^verbatim>\<open>contentStr.match\<close> throws a TypeError when the content is no string.
\<close>

definition generatedFromText :: "env \<Rightarrow> string \<Rightarrow> message \<Rightarrow> world \<Rightarrow> (error + string) \<times> world" where
  "generatedFromText env productName msg w =
     (case content msg of
        None \<Rightarrow> (Inl TypeError, w)
      | Some contentStr \<Rightarrow>
          (case firstUrl contentStr of
             Some u \<Rightarrow> convertUrlToBase64 env u w
           | None \<Rightarrow> (Inl (FailedToGenerate productName), w)))"

text \<open>
  Lines 1076--1126 of \<^verbatim>\<open>generateOutfitImage\<close>: the new base image out of the answer for one
  product. The \<^verbatim>\<open>catch\<close> throws what it caught.
\<close>

definition parseGenerated :: "env \<Rightarrow> string \<Rightarrow> message \<Rightarrow> world \<Rightarrow> (error + string) \<times> world" where
  "parseGenerated env productName msg w =
     (case structuredUrl msg of
        Some u \<Rightarrow>
          if startsWith u ''data:'' then (Inr u, w)
          else if startsWith u ''http'' then convertUrlToBase64 env u w
          else generatedFromText env productName msg w
      | None \<Rightarrow> generatedFromText env productName msg w)"

text \<open>The same for the extractor, which caches every image it returns (lines 1289--1330).\<close>

definition cacheAndReturn :: "env \<Rightarrow> string \<Rightarrow> string \<Rightarrow> world \<Rightarrow> (error + string) \<times> world" where
  "cacheAndReturn env productImageUrl img w =
     (case cacheProductImage env productImageUrl img w of
        (Inl err, w1) \<Rightarrow> (Inl err, w1)
      | (Inr u, w1) \<Rightarrow> (Inr img, w1))"

definition convertCacheAndReturn ::
  "env \<Rightarrow> string \<Rightarrow> string \<Rightarrow> world \<Rightarrow> (error + string) \<times> world" where
  "convertCacheAndReturn env productImageUrl u w =
     (case convertUrlToBase64 env u w of
        (Inl err, w1) \<Rightarrow> (Inl err, w1)
      | (Inr base64Image, w1) \<Rightarrow> cacheAndReturn env productImageUrl base64Image w1)"

definition extractedFromText ::
  "env \<Rightarrow> string \<Rightarrow> string \<Rightarrow> message \<Rightarrow> world \<Rightarrow> (error + string) \<times> world" where
  "extractedFromText env productImageUrl productName msg w =
     (case content msg of
        None \<Rightarrow> (Inl TypeError, w)
      | Some contentStr \<Rightarrow>
          (case firstUrl contentStr of
             Some u \<Rightarrow> convertCacheAndReturn env productImageUrl u w
           | None \<Rightarrow> (Inl (FailedToExtract productName), w)))"

definition parseExtracted ::
  "env \<Rightarrow> string \<Rightarrow> string \<Rightarrow> message \<Rightarrow> world \<Rightarrow> (error + string) \<times> world" where
  "parseExtracted env productImageUrl productName msg w =
     (case structuredUrl msg of
        Some u \<Rightarrow>
          if startsWith u ''data:'' then cacheAndReturn env productImageUrl u w
          else if startsWith u ''http'' then convertCacheAndReturn env productImageUrl u w
          else extractedFromText env productImageUrl productName msg w
      | None \<Rightarrow> extractedFromText env productImageUrl productName msg w)"

subsection \<open>The extractor\<close>

text \<open>\<^verbatim>\<open>cachedImage && cachedImage.image\<close>, and the image used when it holds.\<close>

definition cachedHit :: "cachedImage option \<Rightarrow> string option" where
  "cachedHit cachedImage =
     (case cachedImage of
        None \<Rightarrow> None
      | Some c \<Rightarrow> if hitImage c \<noteq> [] then Some (hitImage c) else None)"

text \<open>
  The POST of the extraction request and the reading of its answer (lines 1164--1330).
\<close>

definition requestExtraction ::
  "env \<Rightarrow> string \<Rightarrow> string \<Rightarrow> string \<Rightarrow> string \<Rightarrow> world \<Rightarrow> (error + string) \<times> world" where
  "requestExtraction env apiKey productImageUrl productName productImageBase64 w =
     (let request = ExtractRequest apiKey productName productImageBase64;
          w1 = logged (EvPost request) w
      in case apiPost env (tick w) request of
           None \<Rightarrow> (Inl NetworkError, w1)
         | Some response \<Rightarrow>
             if \<not> apiOk response then
               (Inl (ExtractApiError productName (apiStatus response) (apiText response)), w1)
             else
               (case apiBody response of
                  NotJson \<Rightarrow> (Inl SyntaxError, w1)
                | NoMessage \<Rightarrow> (Inl TypeError, w1)
                | Message msg \<Rightarrow> parseExtracted env productImageUrl productName msg w1))"

text \<open>\<^verbatim>\<open>extractActualProductImage\<close> (lines 1149--1331).\<close>

definition extractActualProductImage ::
  "env \<Rightarrow> string \<Rightarrow> string \<Rightarrow> string \<Rightarrow> world \<Rightarrow> (error + string) \<times> world" where
  "extractActualProductImage env apiKey productImageUrl productName w =
     (case getCachedProductImage env productImageUrl w of
        (Inl err, w1) \<Rightarrow> (Inl err, w1)
      | (Inr cachedImage, w1) \<Rightarrow>
          (case cachedHit cachedImage of
             Some img \<Rightarrow> (Inr img, w1)
           | None \<Rightarrow>
               (case convertUrlToBase64 env productImageUrl w1 of
                  (Inl err, w2) \<Rightarrow> (Inl err, w2)
                | (Inr productImageBase64, w2) \<Rightarrow>
                    (case cacheProductImage env productImageUrl productImageBase64 w2 of
                       (Inl err, w3) \<Rightarrow> (Inl err, w3)
                     | (Inr u, w3) \<Rightarrow>
                         requestExtraction env apiKey productImageUrl productName
                           productImageBase64 w3))))"

subsection \<open>The progressive composer\<close>

text \<open>
  Step 1 of the loop body (lines 923--952): the cached image, else the extracted one, else,
  when anything in the \<^verbatim>\<open>try\<close> block throws, the original image fetched directly.
\<close>

definition resolveProductImage ::
  "env \<Rightarrow> string \<Rightarrow> product \<Rightarrow> world \<Rightarrow> (error + string) \<times> world" where
  "resolveProductImage env apiKey p w =
     (case getCachedProductImage env (prodImage p) w of
        (Inl extractError, w1) \<Rightarrow> convertUrlToBase64 env (prodImage p) w1
      | (Inr cachedImage, w1) \<Rightarrow>
          (case cachedHit cachedImage of
             Some img \<Rightarrow> (Inr img, w1)
           | None \<Rightarrow>
               (case extractActualProductImage env apiKey (prodImage p) (prodName p) w1 of
                  (Inl extractError, w2) \<Rightarrow> convertUrlToBase64 env (prodImage p) w2
                | (Inr img, w2) \<Rightarrow> (Inr img, w2))))"

text \<open>
  Step 2 and the rest of the loop body (lines 954--1126): the composition request for one
  product on the current base image, and the new base image out of its answer.
\<close>

definition requestComposition ::
  "env \<Rightarrow> string \<Rightarrow> string \<Rightarrow> string \<Rightarrow> string \<Rightarrow> world \<Rightarrow> (error + string) \<times> world" where
  "requestComposition env apiKey productName currentBaseImageBase64 actualProductImageBase64 w =
     (let request =
            ComposeRequest apiKey productName currentBaseImageBase64 actualProductImageBase64;
          w1 = logged (EvPost request) w
      in case apiPost env (tick w) request of
           None \<Rightarrow> (Inl NetworkError, w1)
         | Some response \<Rightarrow>
             if \<not> apiOk response then
               (Inl (OpenRouterApiError productName (apiStatus response) (apiText response)), w1)
             else
               (case apiBody response of
                  NotJson \<Rightarrow> (Inl SyntaxError, w1)
                | NoMessage \<Rightarrow> (Inl TypeError, w1)
                | Message msg \<Rightarrow> parseGenerated env productName msg w1))"

definition generateOutfitStep ::
  "env \<Rightarrow> string \<Rightarrow> string \<Rightarrow> product \<Rightarrow> world \<Rightarrow> (error + string) \<times> world" where
  "generateOutfitStep env apiKey currentBaseImageBase64 p w =
     (case resolveProductImage env apiKey p w of
        (Inl err, w1) \<Rightarrow> (Inl err, w1)
      | (Inr actualProductImageBase64, w1) \<Rightarrow>
          requestComposition env apiKey (prodName p) currentBaseImageBase64
            actualProductImageBase64 w1)"

text \<open>The \<^verbatim>\<open>for\<close> loop over the products (line 915), in list order.\<close>

fun generateOutfitLoop ::
  "env \<Rightarrow> string \<Rightarrow> string \<Rightarrow> product list \<Rightarrow> world \<Rightarrow> (error + string) \<times> world" where
  "generateOutfitLoop env apiKey currentBaseImageBase64 [] w = (Inr currentBaseImageBase64, w)"
| "generateOutfitLoop env apiKey currentBaseImageBase64 (p # products) w =
     (case generateOutfitStep env apiKey currentBaseImageBase64 p w of
        (Inl err, w1) \<Rightarrow> (Inl err, w1)
      | (Inr newBase, w1) \<Rightarrow> generateOutfitLoop env apiKey newBase products w1)"

text \<open>
  \<^verbatim>\<open>generateOutfitImage\<close> (lines 904--1139). After the loop the cache statistics are read
  for the log; \<^verbatim>\<open>getCacheInfo\<close> throws when the storage read fails.
\<close>

definition generateOutfitImage ::
  "env \<Rightarrow> string \<Rightarrow> string \<Rightarrow> product list \<Rightarrow> world \<Rightarrow> (error + string) \<times> world" where
  "generateOutfitImage env apiKey inputImageUrl products w =
     (if apiKey = [] then (Inl ApiKeyRequired, w)
      else
        (case convertUrlToBase64 env inputImageUrl w of
           (Inl err, w1) \<Rightarrow> (Inl err, w1)
         | (Inr base, w1) \<Rightarrow>
             (case generateOutfitLoop env apiKey base products w1 of
                (Inl err, w2) \<Rightarrow> (Inl err, w2)
              | (Inr final, w2) \<Rightarrow>
                  (case getCacheInfo env w2 of
                     (Inl err, w3) \<Rightarrow> (Inl err, w3)
                   | (Inr info, w3) \<Rightarrow> (Inr final, w3)))))"

text \<open>The remote synthesis calls in a trace.\<close>

fun isPost :: "event \<Rightarrow> bool" where
  "isPost (EvPost _) = True"
| "isPost _ = False"

definition synthesisCalls :: "world \<Rightarrow> nat" where
  "synthesisCalls w = length (filter isPost (trace w))"

subsection \<open>Notions of the specification\<close>

text \<open>
  An entry the expiry sweep is due to remove at time \<open>now\<close>: a product image key that holds
  an object whose recorded timestamp is not zero and whose age exceeds \<open>maxAge\<close>.
\<close>

definition expired :: "int \<Rightarrow> int \<Rightarrow> string \<times> stored \<Rightarrow> bool" where
  "expired now maxAge kv =
     (isCacheKey (fst kv) \<and>
      (case snd kv of
         CacheData _ (Some ts) _ \<Rightarrow> ts \<noteq> 0 \<and> now - ts > maxAge
       | _ \<Rightarrow> False))"

text \<open>No product image key holds \<^verbatim>\<open>null\<close> (or \<^verbatim>\<open>undefined\<close>).\<close>

definition readableEntries :: "(string \<times> stored) list \<Rightarrow> bool" where
  "readableEntries xs =
     list_all (\<lambda>kv. \<not> isCacheKey (fst kv) \<or> (snd kv \<noteq> Plain JNull \<and> snd kv \<noteq> Plain JUndefined)) xs"

text \<open>A storage backend none of whose calls fails.\<close>

definition healthy :: "env \<Rightarrow> bool" where
  "healthy env = (\<forall>t. \<not> storageFault env t)"

text \<open>
  The URL-like pattern \<^verbatim>\<open>/https?:\/\/[^\s]+/\<close>, read as a specification: a URL-like text is
  \<^verbatim>\<open>http://\<close> or \<^verbatim>\<open>https://\<close> followed by one or more characters none of which is white
  space.
\<close>

definition nonSpaceText :: "string \<Rightarrow> bool" where
  "nonSpaceText s = (s \<noteq> [] \<and> list_all (\<lambda>c. \<not> isSpace c) s)"

definition urlLike :: "string \<Rightarrow> bool" where
  "urlLike u =
     (if startsWith u ''https://'' then nonSpaceText (drop (length ''https://'') u)
      else if startsWith u ''http://'' then nonSpaceText (drop (length ''http://'') u)
      else False)"

text \<open>
  The match of the pattern that starts at position \<open>i\<close> of a text: the URL-like text that
  stands there and runs to the next white space or to the end of the text. The first match
  is the match at the least position that has one.
\<close>

definition matchAt :: "string \<Rightarrow> nat \<Rightarrow> string \<Rightarrow> bool" where
  "matchAt str i u =
     (i \<le> length str \<and> take (length u) (drop i str) = u \<and> urlLike u \<and>
      (case drop (i + length u) str of [] \<Rightarrow> True | c # _ \<Rightarrow> isSpace c))"

definition firstMatch :: "string \<Rightarrow> string \<Rightarrow> bool" where
  "firstMatch str u = (\<exists>i. matchAt str i u \<and> (\<forall>j<i. \<forall>v. \<not> matchAt str j v))"

definition noMatch :: "string \<Rightarrow> bool" where
  "noMatch str = (\<forall>i u. \<not> matchAt str i u)"

text \<open>
  The parsing policy of the specification: what the image of an answer is resolved from.
  Branch (a) is the structured image of the answer, used directly when it is a data URL
  and fetched when it is an \<^verbatim>\<open>http\<close> URL; branch (b) is the first URL in the text of the
  answer; a later branch is consulted only when the earlier one yields nothing.
\<close>

datatype resolution = UseDirectly string | FetchAndConvert string | NoImage

definition structuredImage :: "message \<Rightarrow> resolution option" where
  "structuredImage msg =
     (case images msg of
        [] \<Rightarrow> None
      | first # _ \<Rightarrow>
          (case partUrl first of
             None \<Rightarrow> None
           | Some u \<Rightarrow>
               if startsWith u ''data:'' then Some (UseDirectly u)
               else if startsWith u ''http'' then Some (FetchAndConvert u)
               else None))"

definition textImage :: "message \<Rightarrow> resolution option" where
  "textImage msg =
     (case content msg of
        None \<Rightarrow> None
      | Some text \<Rightarrow>
          (case firstUrl text of
             None \<Rightarrow> None
           | Some u \<Rightarrow> Some (FetchAndConvert u)))"

definition parsingPolicy :: "message \<Rightarrow> resolution" where
  "parsingPolicy msg =
     (case structuredImage msg of
        Some r \<Rightarrow> r
      | None \<Rightarrow> (case textImage msg of Some r \<Rightarrow> r | None \<Rightarrow> NoImage))"

text \<open>
  The failed composition calls after which the error names the item: the remote answer has
  no success status, or it is a JSON document whose message has a text as content and
  neither an image (branch (a) of the policy) nor a URL in that text (branch (b)). An
  answer that is no JSON document, or has no message, or whose content is no text, is not
  among them, whatever else it lacks.
\<close>

definition failsWithText :: "apiResponse option \<Rightarrow> bool" where
  "failsWithText answer =
     (case answer of
        None \<Rightarrow> False
      | Some response \<Rightarrow>
          (if \<not> apiOk response then True
           else (case apiBody response of
                   Message msg \<Rightarrow> parsingPolicy msg = NoImage \<and> content msg \<noteq> None
                 | _ \<Rightarrow> False)))"

subsection \<open>Sample environments and worlds\<close>

text \<open>
  A network that serves every image as a PNG, a model that answers every request with a
  generated image, a storage that never fails, and a clock that stands at \<open>100000000\<close> ms.
\<close>

definition sampleEnv :: env where
  "sampleEnv =
     \<lparr>httpGet = (\<lambda>t u. Some \<lparr>imgOk = True, imgStatus = 200, imgContentType = Some ''image/png'',
                               blobType = ''image/png'', blobData = ''AAAA''\<rparr>),
      apiPost = (\<lambda>t r. Some \<lparr>apiOk = True, apiStatus = 200, apiText = [],
                               apiBody = Message \<lparr>content = Some [],
                                 images = [ImagePart (Some ''data:image/png;base64,OUT'')]\<rparr>\<rparr>),
      storageFault = (\<lambda>t. False),
      clock = (\<lambda>t. 100000000),
      urlPathname = (\<lambda>u. Some ''/a.png'')\<rparr>"

definition emptyWorld :: world where
  "emptyWorld = \<lparr>store = [], tick = 0, trace = [], timers = []\<rparr>"

text \<open>
  A storage with the settings of the extension and three cache entries: one whose age at
  the sample clock is exactly 24 hours, one a millisecond older, and one stamped \<open>0\<close>.
\<close>

definition settingsWorld :: world where
  "settingsWorld =
     \<lparr>store =
        [(''openRouterApiKey'', Plain (JStr ''sk-or-1'')),
         (''productImage_a'', CacheData (JStr ''data:image/png;base64,AAAA'') (Some 13600000) ''https://shop.example/a.png''),
         (''userImage'', Plain (JStr ''data:image/jpeg;base64,UUUU'')),
         (''productImage_b'', CacheData (JStr ''data:image/png;base64,BBBB'') (Some 13599999) ''https://shop.example/b.png''),
         (''savedProducts'', Plain JObject),
         (''productImage_c'', CacheData (JStr ''data:image/png;base64,CCCC'') (Some 0) ''https://shop.example/c.png'')],
      tick = 0, trace = [], timers = []\<rparr>"

text \<open>A storage with a single cache entry, stamped \<open>0\<close>.\<close>

definition epochWorld :: world where
  "epochWorld =
     \<lparr>store =
        [(''productImage_c'', CacheData (JStr ''data:image/png;base64,CCCC'') (Some 0) ''https://shop.example/c.png'')],
      tick = 0, trace = [], timers = []\<rparr>"

text \<open>A product URL, a storage that always fails, and storages with one entry for the URL.\<close>

definition jacketUrl :: string where
  "jacketUrl = ''https://shop.example/jacket.png''"

definition faultyEnv :: env where
  "faultyEnv = sampleEnv\<lparr>storageFault := (\<lambda>t. True)\<rparr>"

definition warmWorld :: world where
  "warmWorld =
     \<lparr>store = [(cacheKeyOf jacketUrl,
                 CacheData (JStr ''data:image/png;base64,JJJJ'') (Some 99000000) jacketUrl)],
      tick = 0, trace = [], timers = []\<rparr>"



text \<open>The URL of a base photo.\<close>

definition photoUrl :: string where
  "photoUrl = ''https://example/photo.jpg''"

text \<open>Three products and the answers of the remote model used in the examples.\<close>

definition jeansUrl :: string where
  "jeansUrl = ''https://shop.example/jeans.png''"

definition hatUrl :: string where
  "hatUrl = ''https://shop.example/hat.png''"

definition jacket :: product where
  "jacket = \<lparr>prodName = ''Red Jacket'', prodImage = jacketUrl\<rparr>"

definition jeans :: product where
  "jeans = \<lparr>prodName = ''Blue Jeans'', prodImage = jeansUrl\<rparr>"

definition hat :: product where
  "hat = \<lparr>prodName = ''Straw Hat'', prodImage = hatUrl\<rparr>"

definition imageAnswer :: "string \<Rightarrow> apiResponse" where
  "imageAnswer img =
     \<lparr>apiOk = True, apiStatus = 200, apiText = [],
      apiBody = Message \<lparr>content = Some [], images = [ImagePart (Some img)]\<rparr>\<rparr>"

definition proseAnswer :: apiResponse where
  "proseAnswer =
     \<lparr>apiOk = True, apiStatus = 200, apiText = [],
      apiBody = Message \<lparr>content = Some ''I cannot edit this image.'', images = []\<rparr>\<rparr>"

text \<open>
  The model answers the composition request for the jeans with prose and every other
  request with an image.
\<close>

definition jeansFailEnv :: env where
  "jeansFailEnv =
     sampleEnv\<lparr>apiPost := (\<lambda>t r.
        case r of
          ComposeRequest k n b a \<Rightarrow>
            if n = ''Blue Jeans'' then Some proseAnswer
            else Some (imageAnswer ''data:image/png;base64,OUT'')
        | ExtractRequest k n s \<Rightarrow> Some (imageAnswer ''data:image/png;base64,CUT''))\<rparr>"

text \<open>The world after the base photo and the jacket have been processed in that environment.\<close>

definition afterJacketWorld :: world where
  "afterJacketWorld =
     \<lparr>store = [(cacheKeyOf jacketUrl, CacheData (JStr ''data:image/png;base64,CUT'') (Some 100000000) jacketUrl)],
      tick = 8,
      trace = [EvFetch photoUrl, EvStorageGet (cacheKeyOf jacketUrl), EvStorageGet (cacheKeyOf jacketUrl),
               EvFetch jacketUrl,
               EvStorageSet (cacheKeyOf jacketUrl) (CacheData (JStr ''data:image/png;base64,AAAA'') (Some 100000000) jacketUrl),
               EvPost (ExtractRequest ''sk-or-1'' ''Red Jacket'' ''data:image/png;base64,AAAA''),
               EvStorageSet (cacheKeyOf jacketUrl) (CacheData (JStr ''data:image/png;base64,CUT'') (Some 100000000) jacketUrl),
               EvPost (ComposeRequest ''sk-or-1'' ''Red Jacket'' ''data:image/png;base64,AAAA'' ''data:image/png;base64,CUT'')],
      timers = []\<rparr>"

text \<open>
  The model answers every extraction request with status 500 and every composition
  request with an image; and the world after the base photo, the failed extraction of the
  jacket and the direct fetch of its image.
\<close>

definition extractFailEnv :: env where
  "extractFailEnv =
     sampleEnv\<lparr>apiPost := (\<lambda>t r.
        case r of
          ComposeRequest k n b a \<Rightarrow> Some (imageAnswer ''data:image/png;base64,OUT'')
        | ExtractRequest k n s \<Rightarrow>
            Some \<lparr>apiOk = False, apiStatus = 500, apiText = ''upstream error'', apiBody = NotJson\<rparr>)\<rparr>"

definition afterFallbackWorld :: world where
  "afterFallbackWorld =
     \<lparr>store = [(cacheKeyOf jacketUrl, CacheData (JStr ''data:image/png;base64,AAAA'') (Some 100000000) jacketUrl)],
      tick = 7,
      trace = [EvFetch photoUrl, EvStorageGet (cacheKeyOf jacketUrl), EvStorageGet (cacheKeyOf jacketUrl),
               EvFetch jacketUrl,
               EvStorageSet (cacheKeyOf jacketUrl) (CacheData (JStr ''data:image/png;base64,AAAA'') (Some 100000000) jacketUrl),
               EvPost (ExtractRequest ''sk-or-1'' ''Red Jacket'' ''data:image/png;base64,AAAA''),
               EvFetch jacketUrl],
      timers = []\<rparr>"

text \<open>The world after the image of the jacket has been extracted from an empty cache.\<close>

definition afterExtractionWorld :: world where
  "afterExtractionWorld =
     \<lparr>store = [(cacheKeyOf jacketUrl, CacheData (JStr ''data:image/png;base64,CUT'') (Some 100000000) jacketUrl)],
      tick = 5,
      trace = [EvStorageGet (cacheKeyOf jacketUrl), EvFetch jacketUrl,
               EvStorageSet (cacheKeyOf jacketUrl) (CacheData (JStr ''data:image/png;base64,AAAA'') (Some 100000000) jacketUrl),
               EvPost (ExtractRequest ''sk-or-1'' ''Red Jacket'' ''data:image/png;base64,AAAA''),
               EvStorageSet (cacheKeyOf jacketUrl) (CacheData (JStr ''data:image/png;base64,CUT'') (Some 100000000) jacketUrl)],
      timers = []\<rparr>"

text \<open>
  The model answers the composition request for the jeans with a message that has neither
  text (its content is \<^verbatim>\<open>null\<close>) nor images, and every other request with an image.
\<close>

definition nullAnswer :: apiResponse where
  "nullAnswer =
     \<lparr>apiOk = True, apiStatus = 200, apiText = [],
      apiBody = Message \<lparr>content = None, images = []\<rparr>\<rparr>"

definition nullContentEnv :: env where
  "nullContentEnv =
     sampleEnv\<lparr>apiPost := (\<lambda>t r.
        case r of
          ComposeRequest k n b a \<Rightarrow>
            if n = ''Blue Jeans'' then Some nullAnswer
            else Some (imageAnswer ''data:image/png;base64,OUT'')
        | ExtractRequest k n s \<Rightarrow> Some (imageAnswer ''data:image/png;base64,CUT''))\<rparr>"

text \<open>
  An environment in which the model gives one answer to every request, and four messages:
  one with a structured data URL and a URL in its text, one with a structured \<^verbatim>\<open>http\<close> URL
  and a URL in its text, one with a structured image that is neither and two URLs in its
  text, and one with no image and no URL.
\<close>

definition answerEnv :: "apiResponse \<Rightarrow> env" where
  "answerEnv answer = sampleEnv\<lparr>apiPost := (\<lambda>t r. Some answer)\<rparr>"

definition answerWith :: "message \<Rightarrow> apiResponse" where
  "answerWith msg = \<lparr>apiOk = True, apiStatus = 200, apiText = [], apiBody = Message msg\<rparr>"

definition bothMessage :: message where
  "bothMessage =
     \<lparr>content = Some ''Also at https://cdn.example/other.png today'',
      images = [ImagePart (Some ''data:image/png;base64,GEN'')]\<rparr>"

definition remoteMessage :: message where
  "remoteMessage =
     \<lparr>content = Some ''Also at https://cdn.example/other.png today'',
      images = [ImagePart (Some ''https://cdn.example/gen.png''), ImagePart (Some ''data:image/png;base64,TWO'')]\<rparr>"

definition textMessage :: message where
  "textMessage =
     \<lparr>content = Some ''Done, see https://cdn.example/a.png or http://b.example/c.png'',
      images = [ImagePart (Some ''ftp://cdn.example/gen.png'')]\<rparr>"

definition proseMessage :: message where
  "proseMessage = \<lparr>content = Some ''I cannot edit this image, see http:// or https://'', images = []\<rparr>"

definition jacketRequest :: request where
  "jacketRequest =
     ComposeRequest ''sk-or-1'' ''Red Jacket'' ''data:image/png;base64,BASE'' ''data:image/png;base64,JJJJ''"

text \<open>
  The model answers every request with the message that has a structured \<^verbatim>\<open>http\<close> URL, and
  the network serves a PNG of its own under that URL.
\<close>

definition cdnEnv :: env where
  "cdnEnv =
     (answerEnv (answerWith remoteMessage))\<lparr>httpGet := (\<lambda>t u.
        if u = ''https://cdn.example/gen.png''
        then Some \<lparr>imgOk = True, imgStatus = 200, imgContentType = Some ''image/png'',
                   blobType = ''image/png'', blobData = ''GGGG''\<rparr>
        else httpGet sampleEnv t u)\<rparr>"

section \<open>Properties\<close>

subsection \<open>Auxiliary facts on lists and on the storage\<close>

lemma logged_simps [simp]:
  "store (logged ev w) = store w"
  "tick (logged ev w) = Suc (tick w)"
  "trace (logged ev w) = trace w @ [ev]"
  "timers (logged ev w) = timers w"
  by (simp_all add: logged_def)

lemma map_of_filter_key:
  "map_of (filter (\<lambda>kv. Q (fst kv)) xs) k = (if Q k then map_of xs k else None)"
  by (induction xs) auto

lemma filter_not_in_filtered_keys:
  "filter (\<lambda>kv. fst kv \<notin> set (filter P (map fst xs))) xs = filter (\<lambda>kv. \<not> P (fst kv)) xs"
  by (rule filter_cong) auto

lemma filter_none_selected:
  "filter P xs = [] \<Longrightarrow> filter (\<lambda>kv. \<not> P kv) xs = xs"
  by (induction xs) (auto split: if_splits)

lemma filter_keys_of_filtered:
  assumes "distinct (map fst xs)"
  shows "filter (\<lambda>kv. fst kv \<notin> set (map fst (filter P xs))) xs = filter (\<lambda>kv. \<not> P kv) xs"
proof (rule filter_cong)
  fix kv assume m: "kv \<in> set xs"
  show "(fst kv \<notin> set (map fst (filter P xs))) = (\<not> P kv)"
  proof
    assume "fst kv \<notin> set (map fst (filter P xs))"
    with m show "\<not> P kv" by force
  next
    assume np: "\<not> P kv"
    show "fst kv \<notin> set (map fst (filter P xs))"
    proof
      assume "fst kv \<in> set (map fst (filter P xs))"
      then obtain kv' where k': "kv' \<in> set xs" "P kv'" "fst kv' = fst kv" by auto
      with m assms have "kv' = kv"
        by (metis eq_key_imp_eq_value prod.collapse)
      with k' np show False by simp
    qed
  qed
qed simp

subsection \<open>Clearing the cache\<close>

lemma clear_store_ok:
  assumes "\<not> storageFault env (tick w)" "\<not> storageFault env (Suc (tick w))"
  shows "store (snd (clearProductImageCache env w)) = filter (\<lambda>kv. \<not> isCacheKey (fst kv)) (store w)"
proof -
  let ?keys = "filter isCacheKey (map fst (store w))"
  have "?keys = [] \<Longrightarrow> filter (\<lambda>kv. fst kv \<notin> set ?keys) (store w) = store w"
    by (metis (mono_tags, lifting) empty_iff empty_set filter_True)
  with assms have "store (snd (clearProductImageCache env w)) =
        filter (\<lambda>kv. fst kv \<notin> set ?keys) (store w)"
    by (simp add: clearProductImageCache_def storageGetAll_def storageRemove_def Let_def
        isCacheKey_def[abs_def] del: set_filter set_map)
  also have "\<dots> = filter (\<lambda>kv. \<not> isCacheKey (fst kv)) (store w)"
    by (rule filter_not_in_filtered_keys)
  finally show ?thesis .
qed

lemma clear_store_subset:
  "\<exists>keys. set keys \<subseteq> {k. isCacheKey k} \<and>
     store (snd (clearProductImageCache env w)) = filter (\<lambda>kv. fst kv \<notin> set keys) (store w)"
proof -
  let ?keys = "filter (\<lambda>key. startsWith key ''productImage_'') (map fst (store w))"
  have "store (snd (clearProductImageCache env w)) = store w \<or>
        store (snd (clearProductImageCache env w)) = filter (\<lambda>kv. fst kv \<notin> set ?keys) (store w)"
    by (simp add: clearProductImageCache_def storageGetAll_def storageRemove_def Let_def
        del: set_filter set_map)
  then show ?thesis
  proof
    assume "store (snd (clearProductImageCache env w)) = store w"
    then have "store (snd (clearProductImageCache env w)) = filter (\<lambda>kv. fst kv \<notin> set []) (store w)"
      by simp
    then show ?thesis by (intro exI[of _ "[]"]) simp
  next
    assume "store (snd (clearProductImageCache env w)) = filter (\<lambda>kv. fst kv \<notin> set ?keys) (store w)"
    moreover have "set ?keys \<subseteq> {k. isCacheKey k}" by (auto simp: isCacheKey_def)
    ultimately show ?thesis by blast
  qed
qed

text \<open>
  Claim C10. \<^verbatim>\<open>clearProductImageCache\<close> returns normally and leaves the value under every key
  without the prefix \<^verbatim>\<open>productImage_\<close> (the API key, the user image, the saved products)
  as it was; when its two storage calls succeed, what remains of the storage is exactly
  the entries whose key does not have the prefix.
\<close>

theorem clearProductImageCache_frame:
  "fst (clearProductImageCache env w) = Inr () \<and>
   (\<forall>key. \<not> isCacheKey key \<longrightarrow>
      map_of (store (snd (clearProductImageCache env w))) key = map_of (store w) key) \<and>
   (\<not> storageFault env (tick w) \<and> \<not> storageFault env (Suc (tick w)) \<longrightarrow>
      store (snd (clearProductImageCache env w)) = filter (\<lambda>kv. \<not> isCacheKey (fst kv)) (store w))"
proof (intro conjI allI impI)
  show "fst (clearProductImageCache env w) = Inr ()"
    by (simp add: clearProductImageCache_def Let_def split: prod.splits sum.splits)
next
  fix key assume nk: "\<not> isCacheKey key"
  obtain keys where k: "set keys \<subseteq> {k. isCacheKey k}"
    and s: "store (snd (clearProductImageCache env w)) = filter (\<lambda>kv. fst kv \<notin> set keys) (store w)"
    using clear_store_subset by blast
  from nk k have "key \<notin> set keys" by auto
  then show "map_of (store (snd (clearProductImageCache env w))) key = map_of (store w) key"
    by (simp add: s map_of_filter_key[of "\<lambda>k. k \<notin> set keys"])
next
  assume "\<not> storageFault env (tick w) \<and> \<not> storageFault env (Suc (tick w))"
  then show "store (snd (clearProductImageCache env w)) = filter (\<lambda>kv. \<not> isCacheKey (fst kv)) (store w)"
    by (simp add: clear_store_ok)
qed

theorem clearProductImageCache_frame_witness:
  "store (snd (clearProductImageCache sampleEnv settingsWorld)) =
     [(''openRouterApiKey'', Plain (JStr ''sk-or-1'')),
      (''userImage'', Plain (JStr ''data:image/jpeg;base64,UUUU'')),
      (''savedProducts'', Plain JObject)]
   \<and> map_of (store (snd (clearProductImageCache sampleEnv settingsWorld))) ''openRouterApiKey''
       = Some (Plain (JStr ''sk-or-1''))"
  using clearProductImageCache_frame [of sampleEnv settingsWorld]
  by (simp add: sampleEnv_def settingsWorld_def isCacheKey_def startsWith_def)

subsection \<open>The expiry sweep\<close>

lemma collectOld_readable:
  "readableEntries xs \<Longrightarrow>
   collectOld now maxAge xs acc = Inr (acc @ map fst (filter (expired now maxAge) xs))"
proof (induction xs arbitrary: acc)
  case Nil
  then show ?case by simp
next
  case (Cons kv xs)
  obtain key v where kv: "kv = (key, v)" by (cases kv)
  from Cons.prems have r: "readableEntries xs" by (simp add: readableEntries_def)
  note IH = Cons.IH[OF r]
  show ?case
  proof (cases "isCacheKey key")
    case False
    then show ?thesis using IH by (simp add: kv expired_def isCacheKey_def)
  next
    case True
    with Cons.prems kv have nn: "v \<noteq> Plain JNull" "v \<noteq> Plain JUndefined"
      by (simp_all add: readableEntries_def)
    show ?thesis
    proof (cases v)
      case (CacheData img ts u)
      with True show ?thesis using IH
        by (cases ts) (simp_all add: kv expired_def isCacheKey_def)
    next
      case (Plain x)
      with nn True show ?thesis using IH
        by (cases x) (simp_all add: kv expired_def isCacheKey_def)
    qed
  qed
qed

lemma cleanup_store:
  assumes "\<not> storageFault env (tick w)" "\<not> storageFault env (Suc (tick w))"
    and "distinct (map fst (store w))" and "readableEntries (store w)"
  shows "store (snd (cleanupOldCachedImages env maxAge w)) =
           filter (\<lambda>kv. \<not> expired (clock env (Suc (tick w))) maxAge kv) (store w)"
proof -
  let ?now = "clock env (Suc (tick w))"
  let ?old = "filter (expired ?now maxAge) (store w)"
  have c: "collectOld ?now maxAge (store w) [] = Inr (map fst ?old)"
    using collectOld_readable[OF assms(4), of ?now maxAge "[]"] by simp
  show ?thesis
  proof (cases "?old = []")
    case True
    then have "filter (\<lambda>kv. \<not> expired ?now maxAge kv) (store w) = store w"
      by (rule filter_none_selected)
    with True c assms(1) show ?thesis
      by (simp add: cleanupOldCachedImages_def storageGetAll_def)
  next
    case False
    with c assms(1,2) have "store (snd (cleanupOldCachedImages env maxAge w)) =
        filter (\<lambda>kv. fst kv \<notin> set (map fst ?old)) (store w)"
      by (simp add: cleanupOldCachedImages_def storageGetAll_def storageRemove_def del: set_map set_filter)
    also have "\<dots> = filter (\<lambda>kv. \<not> expired ?now maxAge kv) (store w)"
      by (rule filter_keys_of_filtered[OF assms(3)])
    finally show ?thesis .
  qed
qed

text \<open>
  Claim C7, as the code has it. When its storage calls succeed, the keys of the storage are
  distinct and no product image key holds \<^verbatim>\<open>null\<close>, \<^verbatim>\<open>cleanupOldCachedImages\<close> with max age
  \<open>maxAge\<close> removes exactly the product image entries that carry a timestamp other than
  \<open>0\<close> whose age at the time of the call is greater than \<open>maxAge\<close>: an entry whose age is
  exactly \<open>maxAge\<close> stays, and so does an entry stamped \<open>0\<close> or without a timestamp. The
  default max age is 24 hours; \<^verbatim>\<open>setupCacheCleanup\<close> registers the sweep with a period of 6
  hours and runs it once with the default.
\<close>

theorem cleanupOldCachedImages_sweep:
  assumes "\<not> storageFault env (tick w)" "\<not> storageFault env (Suc (tick w))"
    and "distinct (map fst (store w))" and "readableEntries (store w)"
  shows "store (snd (cleanupOldCachedImages env maxAge w)) =
           filter (\<lambda>kv. \<not> expired (clock env (Suc (tick w))) maxAge kv) (store w)
         \<and> defaultMaxAge = 86400000
         \<and> setupCacheCleanup env w =
             cleanupOldCachedImages env 86400000
               (w\<lparr>timers := timers w @ [(21600000, CleanupOldCachedImages)]\<rparr>)"
  using cleanup_store[OF assms]
  by (simp add: defaultMaxAge_def setupCacheCleanup_def cleanupInterval_def)

theorem cleanupOldCachedImages_sweep_witness:
  "store (snd (cleanupOldCachedImages sampleEnv defaultMaxAge settingsWorld)) =
     [(''openRouterApiKey'', Plain (JStr ''sk-or-1'')),
      (''productImage_a'', CacheData (JStr ''data:image/png;base64,AAAA'') (Some 13600000) ''https://shop.example/a.png''),
      (''userImage'', Plain (JStr ''data:image/jpeg;base64,UUUU'')),
      (''savedProducts'', Plain JObject),
      (''productImage_c'', CacheData (JStr ''data:image/png;base64,CCCC'') (Some 0) ''https://shop.example/c.png'')]"
  using cleanupOldCachedImages_sweep [of sampleEnv settingsWorld defaultMaxAge]
  by (simp add: sampleEnv_def settingsWorld_def readableEntries_def expired_def isCacheKey_def
      startsWith_def defaultMaxAge_def)

text \<open>
  The claim as the specification states it fails: an entry stamped \<open>0\<close> is older than 24
  hours at the sample clock, and the sweep keeps it.
\<close>

theorem cleanupOldCachedImages_keeps_epoch_entry:
  "store epochWorld =
     [(''productImage_c'', CacheData (JStr ''data:image/png;base64,CCCC'') (Some 0) ''https://shop.example/c.png'')]
   \<and> clock sampleEnv (Suc (tick epochWorld)) - 0 > defaultMaxAge
   \<and> store (snd (cleanupOldCachedImages sampleEnv defaultMaxAge epochWorld)) = store epochWorld"
  by (simp add: sampleEnv_def epochWorld_def defaultMaxAge_def cleanupOldCachedImages_def
      storageGetAll_def startsWith_def)

subsection \<open>Looking up and writing cache entries\<close>

lemma getCached_never_throws:
  "\<exists>r. fst (getCachedProductImage env url w) = Inr r"
  by (simp add: getCachedProductImage_def Let_def split: prod.splits sum.splits option.splits)

lemma getCached_fault:
  "storageFault env (tick w) \<Longrightarrow>
   getCachedProductImage env url w = (Inr None, logged (EvStorageGet (cacheKeyOf url)) w)"
  by (simp add: getCachedProductImage_def storageGet_def Let_def)

lemma getCached_absent:
  "map_of (store w) (cacheKeyOf url) = None \<Longrightarrow>
   getCachedProductImage env url w = (Inr None, logged (EvStorageGet (cacheKeyOf url)) w)"
  by (simp add: getCachedProductImage_def storageGet_def Let_def)


lemma getCached_hit:
  "map_of (store w) (cacheKeyOf url) = Some v \<Longrightarrow> isDataUrlString (propImage v) \<Longrightarrow>
   \<not> storageFault env (tick w) \<Longrightarrow>
   getCachedProductImage env url w = (Inr (Some (hitOf v)), logged (EvStorageGet (cacheKeyOf url)) w)"
  apply (cases v)
  subgoal for img ts u
    by (cases img) (auto simp add: getCachedProductImage_def storageGet_def startsWith_def Let_def)
  by simp





lemma cacheProductImage_result:
  "cacheProductImage env url img w =
     (Inr (), snd (storageSet env (cacheKeyOf url)
                    (CacheData (JStr img) (Some (clock env (tick w))) url) w))"
  by (simp add: cacheProductImage_def Let_def split: prod.splits sum.splits)

text \<open>
  Claim C4, as the code has it. \<^verbatim>\<open>getCachedProductImage\<close> and \<^verbatim>\<open>cacheProductImage\<close> never throw.
  When the storage call fails, the lookup returns \<^verbatim>\<open>null\<close>, which is also its result for
  an absent entry, and the write returns normally and stores nothing.
\<close>

theorem cache_failures_are_swallowed:
  "(\<exists>r. fst (getCachedProductImage env url w) = Inr r)
   \<and> fst (cacheProductImage env url img w) = Inr ()
   \<and> (storageFault env (tick w) \<longrightarrow>
        getCachedProductImage env url w = (Inr None, logged (EvStorageGet (cacheKeyOf url)) w)
        \<and> store (snd (cacheProductImage env url img w)) = store w)
   \<and> (map_of (store w) (cacheKeyOf url) = None \<longrightarrow>
        fst (getCachedProductImage env url w) = Inr None)"
  using getCached_never_throws[of env url w]
  by (simp add: getCached_fault getCached_absent cacheProductImage_result storageSet_def)

theorem cache_failures_are_swallowed_witness:
  "getCachedProductImage faultyEnv jacketUrl warmWorld
     = (Inr None, logged (EvStorageGet (cacheKeyOf jacketUrl)) warmWorld)
   \<and> store (snd (cacheProductImage faultyEnv jacketUrl ''data:image/png;base64,NEW'' warmWorld))
     = store warmWorld"
  using cache_failures_are_swallowed [of faultyEnv jacketUrl warmWorld "''data:image/png;base64,NEW''"]
  by (simp add: faultyEnv_def sampleEnv_def warmWorld_def)

text \<open>
  The claim as the specification states it fails: with a storage that fails, the lookup of
  a URL that has a valid entry fulfils with \<^verbatim>\<open>null\<close>, as the lookup of a URL without an entry
  does, and the write fulfils as well.
\<close>

theorem cache_failure_looks_like_a_miss:
  "storageFault faultyEnv (tick warmWorld)
   \<and> fst (getCachedProductImage faultyEnv jacketUrl warmWorld) = Inr None
   \<and> fst (getCachedProductImage sampleEnv jacketUrl emptyWorld) = Inr None
   \<and> fst (cacheProductImage faultyEnv jacketUrl ''data:image/png;base64,NEW'' warmWorld) = Inr ()"
  by (simp add: faultyEnv_def sampleEnv_def warmWorld_def emptyWorld_def getCachedProductImage_def
      storageGet_def cacheProductImage_def storageSet_def Let_def)

subsection \<open>The parsing policy\<close>

lemma startsWith_Nil [simp]: "p \<noteq> [] \<Longrightarrow> \<not> startsWith [] p"
  by (auto simp: startsWith_def)

lemma parseGenerated_policy:
  "parseGenerated env productName msg w =
     (case parsingPolicy msg of
        UseDirectly u \<Rightarrow> (Inr u, w)
      | FetchAndConvert u \<Rightarrow> convertUrlToBase64 env u w
      | NoImage \<Rightarrow>
          (Inl (case content msg of None \<Rightarrow> TypeError | Some text \<Rightarrow> FailedToGenerate productName), w))"
  by (auto simp add: parseGenerated_def generatedFromText_def parsingPolicy_def structuredImage_def
      textImage_def structuredUrl_def split: list.splits option.splits)

subsection \<open>An empty product list\<close>

lemma convert_world:
  "snd (convertUrlToBase64 env u w) = logged (EvFetch u) w"
  by (simp add: convertUrlToBase64_def Let_def split: option.splits sum.splits)

lemma getCacheInfo_world:
  "snd (getCacheInfo env w) = logged EvStorageGetAll w"
  by (simp add: getCacheInfo_def storageGetAll_def Let_def)


lemma synthesisCalls_logged:
  "synthesisCalls (logged ev w) = synthesisCalls w + (if isPost ev then 1 else 0)"
  by (simp add: synthesisCalls_def)




subsection \<open>Data URLs\<close>

lemma startsWith_append [simp]: "startsWith (p @ s) p"
  by (simp add: startsWith_def)

lemma startsWith_data_nonempty: "startsWith s ''data:'' \<Longrightarrow> s \<noteq> []"
  by (auto simp: startsWith_def)

lemma expandReplacement_plain:
  "c \<noteq> CHR ''$'' \<Longrightarrow>
   expandReplacement matched pre post (c # cs) = c # expandReplacement matched pre post cs"
  by (cases cs) simp_all

lemma replaceMime_data: "startsWith b ''data:'' \<Longrightarrow> startsWith (replaceMime b m) ''data:''"
proof -
  have "\<And>matched rest t. startsWith
          (expandReplacement matched [] rest (''data:'' @ t @ '';base64,'') @ rest) ''data:''"
    by (simp add: startsWith_def expandReplacement_plain)
  then show "startsWith b ''data:'' \<Longrightarrow> startsWith (replaceMime b m) ''data:''"
    by (auto simp add: replaceMime_def split: option.splits)
qed

lemma readAsDataURL_data: "startsWith (readAsDataURL response) ''data:''"
  by (simp add: readAsDataURL_def startsWith_def)

lemma withMimeType_data: "startsWith b ''data:'' \<Longrightarrow> startsWith (withMimeType b m) ''data:''"
  by (simp add: withMimeType_def replaceMime_data)

lemma convert_result_data:
  assumes "convertUrlToBase64 env u w = (Inr r, w')"
  shows "startsWith r ''data:''"
  using assms withMimeType_data[OF readAsDataURL_data]
  by (auto simp add: convertUrlToBase64_def Let_def split: option.splits if_splits sum.splits)

subsection \<open>The first URL in a text\<close>

lemma scan_body:
  assumes "list_all P b" and "case rest of [] \<Rightarrow> True | c # _ \<Rightarrow> \<not> P c"
  shows "takeWhile P (b @ rest) = b"
proof -
  have "takeWhile P rest = []" using assms(2) by (cases rest) simp_all
  with assms(1) show ?thesis by (simp add: takeWhile_append2 list_all_iff)
qed

lemma startsWith_split: "startsWith s p \<Longrightarrow> s = p @ drop (length p) s"
  by (metis append_take_drop_id startsWith_def)

lemma dropWhile_head:
  "case dropWhile (\<lambda>c. \<not> Q c) xs of [] \<Rightarrow> True | c # _ \<Rightarrow> Q c"
  by (induction xs) auto

lemma scheme_match:
  assumes s: "startsWith s sch"
  shows "(takeWhile (\<lambda>c. \<not> isSpace c) (drop (length sch) s) \<noteq> [] \<and>
          u = sch @ takeWhile (\<lambda>c. \<not> isSpace c) (drop (length sch) s))
       = (take (length u) s = u \<and> startsWith u sch \<and> drop (length sch) u \<noteq> []
            \<and> list_all (\<lambda>c. \<not> isSpace c) (drop (length sch) u)
            \<and> (case drop (length u) s of [] \<Rightarrow> True | c # _ \<Rightarrow> isSpace c))"
    (is "?L = ?R")
proof
  let ?P = "\<lambda>c. \<not> isSpace c"
  define t where "t = drop (length sch) s"
  define tw where "tw = takeWhile ?P t"
  define dw where "dw = dropWhile ?P t"
  have st: "s = sch @ t" unfolding t_def using s by (rule startsWith_split)
  have t: "t = tw @ dw" unfolding tw_def dw_def by simp
  assume l: ?L
  then have u: "u = sch @ tw" and ne: "tw \<noteq> []" by (simp_all add: t_def tw_def)
  have 1: "take (length u) s = u" by (simp add: st t u)
  have 2: "drop (length u) s = dw" by (simp add: st t u)
  have 3: "case dw of [] \<Rightarrow> True | c # _ \<Rightarrow> isSpace c"
    unfolding dw_def by (rule dropWhile_head)
  have 4: "list_all ?P tw"
    unfolding tw_def by (auto simp add: list_all_iff dest: set_takeWhileD)
  from 1 2 3 4 ne show ?R by (simp add: u)
next
  let ?P = "\<lambda>c. \<not> isSpace c"
  assume r: ?R
  define b where "b = drop (length sch) u"
  define rest where "rest = drop (length u) s"
  from r have ub: "u = sch @ b" unfolding b_def using startsWith_split by blast
  from r have "s = u @ rest" unfolding rest_def by (metis append_take_drop_id)
  with ub have sb: "drop (length sch) s = b @ rest" by simp
  from r have "list_all ?P b" "b \<noteq> []" unfolding b_def by simp_all
  moreover from r have "case rest of [] \<Rightarrow> True | c # _ \<Rightarrow> \<not> ?P c"
    unfolding rest_def by (auto split: list.splits)
  ultimately have "takeWhile ?P (b @ rest) = b" "b \<noteq> []"
    using scan_body[of ?P b rest] by simp_all
  with sb ub show ?L by simp
qed

lemma https_not_http: "startsWith s ''https://'' \<Longrightarrow> \<not> startsWith s ''http://''"
proof
  assume a: "startsWith s ''https://''" and b: "startsWith s ''http://''"
  from a obtain t where "s = ''https://'' @ t"
    using startsWith_split by blast
  with b show False by (simp add: startsWith_def)
qed

lemma matchUrlAt_https:
  "startsWith s ''https://'' \<Longrightarrow>
   (matchUrlAt s = Some u) =
     (takeWhile (\<lambda>c. \<not> isSpace c) (drop (length ''https://'') s) \<noteq> [] \<and>
      u = ''https://'' @ takeWhile (\<lambda>c. \<not> isSpace c) (drop (length ''https://'') s))"
  by (auto simp add: matchUrlAt_def Let_def)

lemma matchUrlAt_http:
  "\<not> startsWith s ''https://'' \<Longrightarrow> startsWith s ''http://'' \<Longrightarrow>
   (matchUrlAt s = Some u) =
     (takeWhile (\<lambda>c. \<not> isSpace c) (drop (length ''http://'') s) \<noteq> [] \<and>
      u = ''http://'' @ takeWhile (\<lambda>c. \<not> isSpace c) (drop (length ''http://'') s))"
  by (auto simp add: matchUrlAt_def Let_def)

lemma matchUrlAt_other:
  "\<not> startsWith s ''https://'' \<Longrightarrow> \<not> startsWith s ''http://'' \<Longrightarrow> matchUrlAt s = None"
  by (simp add: matchUrlAt_def Let_def)


lemma startsWith_of_prefix:
  assumes "take (length u) s = u" and "startsWith u p"
  shows "startsWith s p"
proof -
  have "s = u @ drop (length u) s" using assms(1) by (metis append_take_drop_id)
  moreover have "u = p @ drop (length p) u" using assms(2) by (rule startsWith_split)
  ultimately have "s = p @ (drop (length p) u @ drop (length u) s)" by (metis append.assoc)
  then show ?thesis by (metis startsWith_append)
qed

lemma matchUrlAt_matchAt: "(matchUrlAt s = Some u) = matchAt s 0 u"
proof (cases "startsWith s ''https://''")
  case True
  note nh = https_not_http[OF True]
  show ?thesis
  proof (cases "startsWith u ''https://''")
    case U: True
    then show ?thesis
      using matchUrlAt_https[OF True, of u] scheme_match[OF True, of u]
      by (simp add: matchAt_def urlLike_def nonSpaceText_def)
  next
    case U: False
    have "\<not> (take (length u) s = u \<and> startsWith u ''http://'')"
      using nh startsWith_of_prefix by blast
    with U show ?thesis
      using matchUrlAt_https[OF True, of u] scheme_match[OF True, of u]
      by (auto simp add: matchAt_def urlLike_def nonSpaceText_def)
  qed
next
  case False
  show ?thesis
  proof (cases "startsWith s ''http://''")
    case H: True
    have "\<not> (take (length u) s = u \<and> startsWith u ''https://'')"
      using False startsWith_of_prefix by blast
    then show ?thesis
      using matchUrlAt_http[OF False H, of u] scheme_match[OF H, of u]
      by (auto simp add: matchAt_def urlLike_def nonSpaceText_def)
  next
    case H: False
    have "\<not> (take (length u) s = u \<and> startsWith u ''https://'')"
      "\<not> (take (length u) s = u \<and> startsWith u ''http://'')"
      using False H startsWith_of_prefix by blast+
    then show ?thesis
      using matchUrlAt_other[OF False H]
      by (auto simp add: matchAt_def urlLike_def nonSpaceText_def)
  qed
qed

lemma matchAt_Suc: "matchAt (c # cs) (Suc i) u = matchAt cs i u"
  by (simp add: matchAt_def)

lemma firstUrl_None: "(firstUrl str = None) = (\<forall>i u. \<not> matchAt str i u)"
proof (induction str)
  case Nil
  then show ?case by (auto simp add: matchAt_def urlLike_def nonSpaceText_def startsWith_def)
next
  case (Cons c cs)
  show ?case
  proof (cases "matchUrlAt (c # cs)")
    case None
    then have n0: "\<And>u. \<not> matchAt (c # cs) 0 u"
      using matchUrlAt_matchAt[of "c # cs"] by simp
    have "(\<forall>i u. \<not> matchAt (c # cs) i u) = (\<forall>i u. \<not> matchAt cs i u)"
    proof
      assume "\<forall>i u. \<not> matchAt (c # cs) i u"
      then show "\<forall>i u. \<not> matchAt cs i u" using matchAt_Suc by blast
    next
      assume a: "\<forall>i u. \<not> matchAt cs i u"
      show "\<forall>i u. \<not> matchAt (c # cs) i u"
      proof (intro allI)
        fix i u show "\<not> matchAt (c # cs) i u"
          using n0 a matchAt_Suc by (cases i) auto
      qed
    qed
    with None Cons.IH show ?thesis by simp
  next
    case (Some u)
    then have "matchAt (c # cs) 0 u" using matchUrlAt_matchAt by blast
    with Some show ?thesis by auto
  qed
qed

lemma firstUrl_Some:
  "(firstUrl str = Some u) = (\<exists>i. matchAt str i u \<and> (\<forall>j<i. \<forall>v. \<not> matchAt str j v))"
proof (induction str)
  case Nil
  then show ?case by (auto simp add: matchAt_def urlLike_def nonSpaceText_def startsWith_def)
next
  case (Cons c cs)
  show ?case
  proof (cases "matchUrlAt (c # cs)")
    case None
    then have n0: "\<And>v. \<not> matchAt (c # cs) 0 v"
      using matchUrlAt_matchAt[of "c # cs"] by simp
    have "(\<exists>i. matchAt (c # cs) i u \<and> (\<forall>j<i. \<forall>v. \<not> matchAt (c # cs) j v))
        = (\<exists>i. matchAt cs i u \<and> (\<forall>j<i. \<forall>v. \<not> matchAt cs j v))"
    proof
      assume "\<exists>i. matchAt (c # cs) i u \<and> (\<forall>j<i. \<forall>v. \<not> matchAt (c # cs) j v)"
      then obtain i where i: "matchAt (c # cs) i u" "\<forall>j<i. \<forall>v. \<not> matchAt (c # cs) j v" by blast
      with n0 obtain k where k: "i = Suc k" by (cases i) auto
      with i have "matchAt cs k u" by (simp add: matchAt_Suc)
      moreover have "\<forall>j<k. \<forall>v. \<not> matchAt cs j v"
      proof (intro allI impI)
        fix j v assume "j < k"
        then have "Suc j < i" using k by simp
        with i(2) have "\<not> matchAt (c # cs) (Suc j) v" by blast
        then show "\<not> matchAt cs j v" by (simp add: matchAt_Suc)
      qed
      ultimately show "\<exists>i. matchAt cs i u \<and> (\<forall>j<i. \<forall>v. \<not> matchAt cs j v)" by blast
    next
      assume "\<exists>i. matchAt cs i u \<and> (\<forall>j<i. \<forall>v. \<not> matchAt cs j v)"
      then obtain k where k: "matchAt cs k u" "\<forall>j<k. \<forall>v. \<not> matchAt cs j v" by blast
      have "matchAt (c # cs) (Suc k) u" using k(1) by (simp add: matchAt_Suc)
      moreover have "\<forall>j<Suc k. \<forall>v. \<not> matchAt (c # cs) j v"
      proof (intro allI impI)
        fix j v assume "j < Suc k"
        then show "\<not> matchAt (c # cs) j v"
          using n0 k(2) by (cases j) (auto simp add: matchAt_Suc)
      qed
      ultimately show "\<exists>i. matchAt (c # cs) i u \<and> (\<forall>j<i. \<forall>v. \<not> matchAt (c # cs) j v)" by blast
    qed
    with None Cons.IH show ?thesis by simp
  next
    case (Some v)
    then have m0: "matchAt (c # cs) 0 v" using matchUrlAt_matchAt by blast
    have uniq: "\<And>w. matchAt (c # cs) 0 w \<Longrightarrow> w = v"
      using Some matchUrlAt_matchAt[of "c # cs"] by (metis option.inject)
    show ?thesis
    proof
      assume "firstUrl (c # cs) = Some u"
      with Some have "u = v" by simp
      with m0 have "matchAt (c # cs) 0 u \<and> (\<forall>j<0. \<forall>v. \<not> matchAt (c # cs) j v)" by simp
      then show "\<exists>i. matchAt (c # cs) i u \<and> (\<forall>j<i. \<forall>v. \<not> matchAt (c # cs) j v)" by blast
    next
      assume "\<exists>i. matchAt (c # cs) i u \<and> (\<forall>j<i. \<forall>v. \<not> matchAt (c # cs) j v)"
      then obtain i where i: "matchAt (c # cs) i u" "\<forall>j<i. \<forall>v. \<not> matchAt (c # cs) j v" by blast
      have "i = 0"
      proof (rule ccontr)
        assume "i \<noteq> 0"
        then have "0 < i" by simp
        with i(2) m0 show False by blast
      qed
      with i(1) have "u = v" using uniq by simp
      with Some show "firstUrl (c # cs) = Some u" by simp
    qed
  qed
qed


lemma textImage_Some:
  "(textImage msg = Some (FetchAndConvert u)) = (\<exists>str. content msg = Some str \<and> firstMatch str u)"
  by (auto simp add: textImage_def firstMatch_def firstUrl_Some[symmetric] split: option.splits)

lemma textImage_None:
  "(textImage msg = None) = (case content msg of None \<Rightarrow> True | Some str \<Rightarrow> noMatch str)"
  by (auto simp add: textImage_def noMatch_def firstUrl_None[symmetric] split: option.splits)

lemma eval_both: "parsingPolicy bothMessage = UseDirectly ''data:image/png;base64,GEN''"
  by (simp add: parsingPolicy_def structuredImage_def bothMessage_def startsWith_def)

lemma eval_remote: "parsingPolicy remoteMessage = FetchAndConvert ''https://cdn.example/gen.png''"
  by (simp add: parsingPolicy_def structuredImage_def remoteMessage_def startsWith_def)

lemma eval_text: "parsingPolicy textMessage = FetchAndConvert ''https://cdn.example/a.png''"
  by (simp add: parsingPolicy_def structuredImage_def textImage_def textMessage_def startsWith_def
      matchUrlAt_def isSpace_def)

lemma eval_prose: "parsingPolicy proseMessage = NoImage"
  by (simp add: parsingPolicy_def structuredImage_def textImage_def proseMessage_def startsWith_def
      matchUrlAt_def isSpace_def)


lemma answerEnv_simps:
  "apiPost (answerEnv answer) t r = Some answer"
  "httpGet (answerEnv answer) = httpGet sampleEnv"
  "urlPathname (answerEnv answer) = urlPathname sampleEnv"
  by (simp_all add: answerEnv_def)

lemma sample_convert:
  "convertUrlToBase64 (answerEnv answer) u w = (Inr ''data:image/png;base64,AAAA'', logged (EvFetch u) w)"
  by (simp add: convertUrlToBase64_def answerEnv_simps sampleEnv_def readAsDataURL_def withMimeType_def
      startsWith_def Let_def)

text \<open>
  Claim C8. For every answer of the remote model with a success status and a message, the
  composition step resolves the new image in the order of the policy: (a) the first
  structured image, used as it is when it is a data URL and fetched and converted when it
  is an \<^verbatim>\<open>http\<close> URL; (b) otherwise the first URL found in the text, fetched and converted;
  (c) otherwise the step fails with an error. Branch (b) yields a URL exactly when the
  content is a text in which that URL is the first match of the URL-like pattern, and
  yields nothing exactly when the content is no text or a text without a match.
\<close>

theorem response_parsing_priority:
  assumes "apiPost env (tick w) (ComposeRequest apiKey productName current apparel) = Some response"
    and "apiOk response" and "apiBody response = Message msg"
  shows "requestComposition env apiKey productName current apparel w =
     (case parsingPolicy msg of
        UseDirectly u \<Rightarrow>
          (Inr u, logged (EvPost (ComposeRequest apiKey productName current apparel)) w)
      | FetchAndConvert u \<Rightarrow>
          convertUrlToBase64 env u (logged (EvPost (ComposeRequest apiKey productName current apparel)) w)
      | NoImage \<Rightarrow>
          (Inl (case content msg of None \<Rightarrow> TypeError | Some str \<Rightarrow> FailedToGenerate productName),
           logged (EvPost (ComposeRequest apiKey productName current apparel)) w))
     \<and> (\<forall>u. (textImage msg = Some (FetchAndConvert u))
              = (\<exists>str. content msg = Some str \<and> firstMatch str u))
     \<and> (textImage msg = None)
         = (case content msg of None \<Rightarrow> True | Some str \<Rightarrow> noMatch str)"
  using assms
  by (simp add: requestComposition_def Let_def parseGenerated_policy textImage_Some textImage_None)

theorem response_parsing_priority_witness:
  "requestComposition (answerEnv (answerWith bothMessage)) ''sk-or-1'' ''Red Jacket''
       ''data:image/png;base64,BASE'' ''data:image/png;base64,JJJJ'' emptyWorld
     = (Inr ''data:image/png;base64,GEN'', logged (EvPost jacketRequest) emptyWorld)
   \<and> requestComposition (answerEnv (answerWith remoteMessage)) ''sk-or-1'' ''Red Jacket''
       ''data:image/png;base64,BASE'' ''data:image/png;base64,JJJJ'' emptyWorld
     = (Inr ''data:image/png;base64,AAAA'',
        logged (EvFetch ''https://cdn.example/gen.png'') (logged (EvPost jacketRequest) emptyWorld))
   \<and> requestComposition (answerEnv (answerWith textMessage)) ''sk-or-1'' ''Red Jacket''
       ''data:image/png;base64,BASE'' ''data:image/png;base64,JJJJ'' emptyWorld
     = (Inr ''data:image/png;base64,AAAA'',
        logged (EvFetch ''https://cdn.example/a.png'') (logged (EvPost jacketRequest) emptyWorld))
   \<and> requestComposition (answerEnv (answerWith proseMessage)) ''sk-or-1'' ''Red Jacket''
       ''data:image/png;base64,BASE'' ''data:image/png;base64,JJJJ'' emptyWorld
     = (Inl (FailedToGenerate ''Red Jacket''), logged (EvPost jacketRequest) emptyWorld)
   \<and> firstMatch ''Done, see https://cdn.example/a.png or http://b.example/c.png''
         ''https://cdn.example/a.png''
   \<and> noMatch ''I cannot edit this image, see http:// or https://''"
proof -
  have p: "\<And>msg. apiPost (answerEnv (answerWith msg)) (tick emptyWorld)
             (ComposeRequest ''sk-or-1'' ''Red Jacket'' ''data:image/png;base64,BASE''
                ''data:image/png;base64,JJJJ'') = Some (answerWith msg)"
    and o: "\<And>msg. apiOk (answerWith msg)"
    and b: "\<And>msg. apiBody (answerWith msg) = Message msg"
    by (simp_all add: answerEnv_simps answerWith_def)
  note t = response_parsing_priority [OF p o b]
  have t3: "textImage textMessage = Some (FetchAndConvert ''https://cdn.example/a.png'')"
    by (simp add: textImage_def textMessage_def startsWith_def matchUrlAt_def isSpace_def)
  have t4: "textImage proseMessage = None"
    by (simp add: textImage_def proseMessage_def startsWith_def matchUrlAt_def isSpace_def)
  have c1: "requestComposition (answerEnv (answerWith bothMessage)) ''sk-or-1'' ''Red Jacket''
       ''data:image/png;base64,BASE'' ''data:image/png;base64,JJJJ'' emptyWorld
     = (Inr ''data:image/png;base64,GEN'', logged (EvPost jacketRequest) emptyWorld)"
    using t [of bothMessage] by (simp add: eval_both jacketRequest_def)
  have c2: "requestComposition (answerEnv (answerWith remoteMessage)) ''sk-or-1'' ''Red Jacket''
       ''data:image/png;base64,BASE'' ''data:image/png;base64,JJJJ'' emptyWorld
     = (Inr ''data:image/png;base64,AAAA'',
        logged (EvFetch ''https://cdn.example/gen.png'') (logged (EvPost jacketRequest) emptyWorld))"
    using t [of remoteMessage] by (simp add: eval_remote sample_convert jacketRequest_def)
  have c3: "requestComposition (answerEnv (answerWith textMessage)) ''sk-or-1'' ''Red Jacket''
       ''data:image/png;base64,BASE'' ''data:image/png;base64,JJJJ'' emptyWorld
     = (Inr ''data:image/png;base64,AAAA'',
        logged (EvFetch ''https://cdn.example/a.png'') (logged (EvPost jacketRequest) emptyWorld))"
    using t [of textMessage] by (simp add: eval_text sample_convert jacketRequest_def)
  have "content proseMessage \<noteq> None" by (simp add: proseMessage_def)
  then have c4: "requestComposition (answerEnv (answerWith proseMessage)) ''sk-or-1'' ''Red Jacket''
       ''data:image/png;base64,BASE'' ''data:image/png;base64,JJJJ'' emptyWorld
     = (Inl (FailedToGenerate ''Red Jacket''), logged (EvPost jacketRequest) emptyWorld)"
    using t [of proseMessage] by (auto simp add: eval_prose jacketRequest_def)
  have "\<exists>str. content textMessage = Some str \<and> firstMatch str ''https://cdn.example/a.png''"
    using t [of textMessage] t3 by blast
  then have c5: "firstMatch ''Done, see https://cdn.example/a.png or http://b.example/c.png''
         ''https://cdn.example/a.png''"
    by (simp add: textMessage_def)
  have "case content proseMessage of None \<Rightarrow> True | Some str \<Rightarrow> noMatch str"
    using t [of proseMessage] t4 by blast
  then have c6: "noMatch ''I cannot edit this image, see http:// or https://''"
    by (simp add: proseMessage_def)
  from c1 c2 c3 c4 c5 c6 show ?thesis by simp
qed

subsection \<open>Traces only grow\<close>

lemma prefix_logged: "prefix (trace w) (trace (logged ev w))"
  by simp

lemma storageRemove_trace: "trace (snd (storageRemove env keys w)) = trace w @ [EvStorageRemove keys]"
  by (simp add: storageRemove_def)

lemma storageSet_trace: "trace (snd (storageSet env key v w)) = trace w @ [EvStorageSet key v]"
  by (simp add: storageSet_def)

lemma storageSet_tick: "tick (snd (storageSet env key v w)) = Suc (tick w)"
  by (simp add: storageSet_def)

lemma getCached_trace: "prefix (trace w) (trace (snd (getCachedProductImage env url w)))"
  by (auto simp add: getCachedProductImage_def storageGet_def storageRemove_def Let_def
      split: option.splits)

lemma cacheProductImage_trace:
  "trace (snd (cacheProductImage env url img w)) =
     trace w @ [EvStorageSet (cacheKeyOf url) (CacheData (JStr img) (Some (clock env (tick w))) url)]"
  by (simp add: cacheProductImage_result storageSet_trace)

lemma convert_trace: "prefix (trace w) (trace (snd (convertUrlToBase64 env u w)))"
  by (simp add: convert_world)

lemma cacheAndReturn_trace: "prefix (trace w) (trace (snd (cacheAndReturn env url img w)))"
  using cacheProductImage_trace[of env url img w]
  by (auto simp add: cacheAndReturn_def split: prod.splits sum.splits)

lemma convertCacheAndReturn_trace:
  "prefix (trace w) (trace (snd (convertCacheAndReturn env url u w)))"
proof (cases "convertUrlToBase64 env u w")
  case (Pair r w1)
  with convert_trace[of w env u] have p: "prefix (trace w) (trace w1)" by simp
  show ?thesis
  proof (cases r)
    case (Inl e)
    with Pair p show ?thesis by (simp add: convertCacheAndReturn_def)
  next
    case (Inr b)
    with Pair show ?thesis
      using prefix_order.trans[OF p cacheAndReturn_trace[of w1 env url b]]
      by (simp add: convertCacheAndReturn_def)
  qed
qed

lemma parseExtracted_trace:
  "prefix (trace w) (trace (snd (parseExtracted env url n msg w)))"
  by (auto simp add: parseExtracted_def extractedFromText_def cacheAndReturn_trace
      convertCacheAndReturn_trace split: option.splits)

lemma parseGenerated_trace:
  "prefix (trace w) (trace (snd (parseGenerated env n msg w)))"
  by (auto simp add: parseGenerated_def generatedFromText_def convert_trace split: option.splits)

lemma requestExtraction_trace:
  "prefix (trace w @ [EvPost (ExtractRequest apiKey n b)])
          (trace (snd (requestExtraction env apiKey url n b w)))"
  using parseExtracted_trace[of "logged (EvPost (ExtractRequest apiKey n b)) w" env url n]
  by (auto simp add: requestExtraction_def Let_def split: option.splits jsonBody.splits)

lemma requestComposition_trace:
  "prefix (trace w @ [EvPost (ComposeRequest apiKey n cur img)])
          (trace (snd (requestComposition env apiKey n cur img w)))"
  using parseGenerated_trace[of "logged (EvPost (ComposeRequest apiKey n cur img)) w" env n]
  by (auto simp add: requestComposition_def Let_def split: option.splits jsonBody.splits)

lemma prefix_append_left: "prefix (xs @ ys) zs \<Longrightarrow> prefix xs zs"
  by (metis append_prefixD)

lemma extract_trace:
  "prefix (trace w) (trace (snd (extractActualProductImage env apiKey url n w)))"
proof (cases "getCachedProductImage env url w")
  case (Pair r w1)
  with getCached_trace[of w env url] have p1: "prefix (trace w) (trace w1)" by simp
  obtain c where r: "r = Inr c" using getCached_never_throws[of env url w] Pair by auto
  show ?thesis
  proof (cases "cachedHit c")
    case (Some img)
    with Pair r p1 show ?thesis by (simp add: extractActualProductImage_def)
  next
    case None
    show ?thesis
    proof (cases "convertUrlToBase64 env url w1")
      case P2: (Pair r2 w2)
      with convert_trace[of w1 env url] have p2: "prefix (trace w1) (trace w2)" by simp
      show ?thesis
      proof (cases r2)
        case (Inl e)
        with Pair r None P2 show ?thesis
          using prefix_order.trans[OF p1 p2] by (simp add: extractActualProductImage_def)
      next
        case (Inr b)
        let ?w3 = "snd (cacheProductImage env url b w2)"
        have p3: "prefix (trace w2) (trace ?w3)" by (simp add: cacheProductImage_trace)
        have p4: "prefix (trace ?w3) (trace (snd (requestExtraction env apiKey url n b ?w3)))"
          using requestExtraction_trace[of ?w3 apiKey n b env url] by (rule prefix_append_left)
        have e: "extractActualProductImage env apiKey url n w = requestExtraction env apiKey url n b ?w3"
          using Pair r None P2 Inr
          by (simp add: extractActualProductImage_def cacheProductImage_result)
        show ?thesis
          unfolding e using p1 p2 p3 p4 by (meson prefix_order.trans)
      qed
    qed
  qed
qed

lemma resolve_trace:
  "prefix (trace w) (trace (snd (resolveProductImage env apiKey p w)))"
proof (cases "getCachedProductImage env (prodImage p) w")
  case (Pair r w1)
  with getCached_trace[of w env "prodImage p"] have p1: "prefix (trace w) (trace w1)" by simp
  obtain c where r: "r = Inr c" using getCached_never_throws[of env "prodImage p" w] Pair by auto
  show ?thesis
  proof (cases "cachedHit c")
    case (Some img)
    with Pair r p1 show ?thesis by (simp add: resolveProductImage_def)
  next
    case None
    show ?thesis
    proof (cases "extractActualProductImage env apiKey (prodImage p) (prodName p) w1")
      case P2: (Pair r2 w2)
      with extract_trace[of w1 env apiKey "prodImage p" "prodName p"]
      have p2: "prefix (trace w1) (trace w2)" by simp
      show ?thesis
      proof (cases r2)
        case (Inr img)
        with Pair r None P2 show ?thesis
          using prefix_order.trans[OF p1 p2] by (simp add: resolveProductImage_def)
      next
        case (Inl e)
        have "prefix (trace w2) (trace (snd (convertUrlToBase64 env (prodImage p) w2)))"
          by (rule convert_trace)
        with Pair r None P2 Inl show ?thesis
          using p1 p2 by (simp add: resolveProductImage_def)
      qed
    qed
  qed
qed

lemma step_trace:
  "prefix (trace w) (trace (snd (generateOutfitStep env apiKey cur p w)))"
proof (cases "resolveProductImage env apiKey p w")
  case (Pair r w1)
  with resolve_trace[of w env apiKey p] have p1: "prefix (trace w) (trace w1)" by simp
  show ?thesis
  proof (cases r)
    case (Inl e)
    with Pair p1 show ?thesis by (simp add: generateOutfitStep_def)
  next
    case (Inr img)
    have "prefix (trace w1) (trace (snd (requestComposition env apiKey (prodName p) cur img w1)))"
      using requestComposition_trace[of w1 apiKey "prodName p" cur img env]
      by (rule prefix_append_left)
    with Pair Inr p1 show ?thesis
      by (simp add: generateOutfitStep_def)
  qed
qed

lemma loop_trace:
  "prefix (trace w) (trace (snd (generateOutfitLoop env apiKey cur ps w)))"
proof (induction ps arbitrary: cur w)
  case Nil
  then show ?case by simp
next
  case (Cons p ps)
  show ?case
  proof (cases "generateOutfitStep env apiKey cur p w")
    case (Pair r w1)
    with step_trace[of w env apiKey cur p] have p1: "prefix (trace w) (trace w1)" by simp
    show ?thesis
    proof (cases r)
      case (Inl e)
      with Pair p1 show ?thesis by simp
    next
      case (Inr nb)
      with Pair show ?thesis
        using prefix_order.trans[OF p1 Cons.IH[of w1 nb]] by simp
    qed
  qed
qed

lemma loop_append:
  "generateOutfitLoop env apiKey cur (ps @ qs) w =
     (case generateOutfitLoop env apiKey cur ps w of
        (Inl err, w1) \<Rightarrow> (Inl err, w1)
      | (Inr mid, w1) \<Rightarrow> generateOutfitLoop env apiKey mid qs w1)"
  by (induction ps arbitrary: cur w) (auto split: prod.splits sum.splits)

subsection \<open>All or nothing\<close>

text \<open>The definitions to unfold when a run on a sample world is evaluated.\<close>

lemmas run_defs =
  generateOutfitImage_def generateOutfitStep_def resolveProductImage_def
  requestComposition_def parseGenerated_def generatedFromText_def structuredUrl_def
  extractActualProductImage_def requestExtraction_def parseExtracted_def extractedFromText_def
  cacheAndReturn_def convertCacheAndReturn_def cachedHit_def
  getCachedProductImage_def cacheProductImage_def getCacheInfo_def
  storageGet_def storageSet_def storageRemove_def storageGetAll_def
  convertUrlToBase64_def readAsDataURL_def withMimeType_def
  logged_def startsWith_def Let_def

lemma keys_differ [simp]:
  "cacheKeyOf jeansUrl \<noteq> cacheKeyOf jacketUrl"
  "cacheKeyOf jacketUrl \<noteq> cacheKeyOf jeansUrl"
  by (simp_all add: cacheKeyOf_def generateUrlHash_def jacketUrl_def jeansUrl_def hashStep_def
      toString36.simps digit36_def)

lemma requestComposition_fails:
  assumes "failsWithText (apiPost env (tick w) (ComposeRequest apiKey n cur img))"
  shows "\<exists>err w'. requestComposition env apiKey n cur img w = (Inl err, w') \<and> errorItem err = Some n"
proof -
  from assms obtain response where
    r: "apiPost env (tick w) (ComposeRequest apiKey n cur img) = Some response"
    by (auto simp: failsWithText_def split: option.splits)
  show ?thesis
  proof (cases "apiOk response")
    case False
    with r show ?thesis by (simp add: requestComposition_def Let_def)
  next
    case True
    with assms r obtain msg where m: "apiBody response = Message msg"
      and n: "parsingPolicy msg = NoImage" and c: "content msg \<noteq> None"
      by (auto simp: failsWithText_def split: option.splits jsonBody.splits)
    from c obtain body where "content msg = Some body" by auto
    with r True m n show ?thesis
      by (simp add: requestComposition_def Let_def parseGenerated_policy)
  qed
qed

lemma generateOutfitImage_step_failure:
  assumes key: "apiKey \<noteq> []"
    and base: "convertUrlToBase64 env inputImageUrl w = (Inr base, w0)"
    and earlier: "generateOutfitLoop env apiKey base before w0 = (Inr partial, w1)"
    and step: "generateOutfitStep env apiKey partial p w1 = (Inl err, w')"
  shows "generateOutfitImage env apiKey inputImageUrl (before @ p # after) w = (Inl err, w')"
  using assms by (simp add: generateOutfitImage_def loop_append)

text \<open>
  Let the API key be given, the base photo be converted, and the products before \<open>p\<close> be
  composed into \<open>partial\<close>. Whatever makes the step for \<open>p\<close> fail, the whole call is
  rejected with the error of that step: the image \<open>partial\<close> is not returned. When the
  image of \<open>p\<close> is resolved and the composition call for \<open>p\<close> fails with a text (no
  success status, or a message with a text that has neither an image nor a URL), the error
  names \<open>p\<close>.
\<close>

lemma generateOutfitImage_all_or_nothing:
  assumes key: "apiKey \<noteq> []"
    and base: "convertUrlToBase64 env inputImageUrl w = (Inr base, w0)"
    and earlier: "generateOutfitLoop env apiKey base before w0 = (Inr partial, w1)"
  shows "(\<forall>err w'. generateOutfitStep env apiKey partial p w1 = (Inl err, w') \<longrightarrow>
            generateOutfitImage env apiKey inputImageUrl (before @ p # after) w = (Inl err, w'))
       \<and> (\<forall>img w2. resolveProductImage env apiKey p w1 = (Inr img, w2)
              \<and> failsWithText (apiPost env (tick w2) (ComposeRequest apiKey (prodName p) partial img))
            \<longrightarrow> (\<exists>err w'. generateOutfitImage env apiKey inputImageUrl (before @ p # after) w = (Inl err, w')
                   \<and> errorItem err = Some (prodName p)))"
proof (intro conjI allI impI)
  fix err w' assume "generateOutfitStep env apiKey partial p w1 = (Inl err, w')"
  then show "generateOutfitImage env apiKey inputImageUrl (before @ p # after) w = (Inl err, w')"
    by (rule generateOutfitImage_step_failure[OF key base earlier])
next
  fix img w2
  assume a: "resolveProductImage env apiKey p w1 = (Inr img, w2)
     \<and> failsWithText (apiPost env (tick w2) (ComposeRequest apiKey (prodName p) partial img))"
  then obtain err w' where
    f: "requestComposition env apiKey (prodName p) partial img w2 = (Inl err, w')"
    and i: "errorItem err = Some (prodName p)"
    using requestComposition_fails by blast
  from a f have "generateOutfitStep env apiKey partial p w1 = (Inl err, w')"
    by (simp add: generateOutfitStep_def)
  then have "generateOutfitImage env apiKey inputImageUrl (before @ p # after) w = (Inl err, w')"
    by (rule generateOutfitImage_step_failure[OF key base earlier])
  with i show "\<exists>err w'. generateOutfitImage env apiKey inputImageUrl (before @ p # after) w = (Inl err, w')
                   \<and> errorItem err = Some (prodName p)"
    by blast
qed


lemma sample_base_photo: "convertUrlToBase64 jeansFailEnv photoUrl emptyWorld
   = (Inr ''data:image/png;base64,AAAA'', logged (EvFetch photoUrl) emptyWorld)"
  by (simp add: jeansFailEnv_def sampleEnv_def emptyWorld_def run_defs)

lemma sample_after_jacket: "generateOutfitLoop jeansFailEnv ''sk-or-1'' ''data:image/png;base64,AAAA'' [jacket]
     (logged (EvFetch photoUrl) emptyWorld) = (Inr ''data:image/png;base64,OUT'', afterJacketWorld)"
  by (simp add: jeansFailEnv_def sampleEnv_def emptyWorld_def jacket_def imageAnswer_def
      afterJacketWorld_def run_defs)

lemma sample_resolve_jeans: "fst (resolveProductImage jeansFailEnv ''sk-or-1'' jeans afterJacketWorld)
    = Inr ''data:image/png;base64,CUT''"
  by (simp add: jeansFailEnv_def sampleEnv_def jeans_def imageAnswer_def
      afterJacketWorld_def run_defs)

lemma generateOutfitImage_all_or_nothing_example:
  "fst (generateOutfitImage jeansFailEnv ''sk-or-1'' photoUrl [jacket, jeans, hat] emptyWorld)
     = Inl (FailedToGenerate ''Blue Jeans'')
   \<and> (\<exists>err w'. generateOutfitImage jeansFailEnv ''sk-or-1'' photoUrl [jacket, jeans, hat] emptyWorld
                   = (Inl err, w')
                \<and> errorItem err = Some ''Blue Jeans'')"
proof -
  let ?w2 = "snd (resolveProductImage jeansFailEnv ''sk-or-1'' jeans afterJacketWorld)"
  let ?step = "generateOutfitStep jeansFailEnv ''sk-or-1'' ''data:image/png;base64,OUT'' jeans afterJacketWorld"
  have r: "resolveProductImage jeansFailEnv ''sk-or-1'' jeans afterJacketWorld
             = (Inr ''data:image/png;base64,CUT'', ?w2)"
    using sample_resolve_jeans by (simp add: prod_eq_iff)
  have f: "failsWithText (apiPost jeansFailEnv (tick ?w2)
             (ComposeRequest ''sk-or-1'' (prodName jeans) ''data:image/png;base64,OUT'' ''data:image/png;base64,CUT''))"
    by (simp add: failsWithText_def jeansFailEnv_def jeans_def proseAnswer_def parsingPolicy_def
        structuredImage_def textImage_def matchUrlAt_def startsWith_def)
  have "fst ?step = Inl (FailedToGenerate ''Blue Jeans'')"
    by (simp add: jeansFailEnv_def sampleEnv_def jeans_def imageAnswer_def proseAnswer_def
        afterJacketWorld_def matchUrlAt_def run_defs)
  then have s: "?step = (Inl (FailedToGenerate ''Blue Jeans''), snd ?step)"
    by (simp add: prod_eq_iff)
  have k: "''sk-or-1'' \<noteq> []" by simp
  note t = generateOutfitImage_all_or_nothing [OF k sample_base_photo sample_after_jacket, of jeans "[hat]"]
  from t s have "generateOutfitImage jeansFailEnv ''sk-or-1'' photoUrl ([jacket] @ jeans # [hat]) emptyWorld
           = (Inl (FailedToGenerate ''Blue Jeans''), snd ?step)"
    by blast
  moreover from t r f
  have "\<exists>err w'. generateOutfitImage jeansFailEnv ''sk-or-1'' photoUrl ([jacket] @ jeans # [hat]) emptyWorld
           = (Inl err, w') \<and> errorItem err = Some (prodName jeans)"
    by blast
  ultimately show ?thesis by (simp add: jeans_def)
qed

text \<open>
  Claim C1. The specification demands that every failed composition call, among them an answer
  with neither an image nor a URL in its text, rejects the whole call with an error that
  names the item. The code rejects, but not always with the name. In the sample run below
  the answer for the second of three products has a success status and a message whose
  content is \<^verbatim>\<open>null\<close> and which has no images. Reading the text (\<^verbatim>\<open>contentStr.match\<close>, line
  1109) throws a TypeError, and that error, which names no product, is what the call is
  rejected with; the branch for a text without URL (line 1121) would have named the
  product.
\<close>

theorem generateOutfitImage_null_content_names_no_item:
  "last (trace (snd (generateOutfitImage nullContentEnv ''sk-or-1'' photoUrl [jacket, jeans, hat] emptyWorld)))
     = EvPost (ComposeRequest ''sk-or-1'' ''Blue Jeans'' ''data:image/png;base64,OUT''
                 ''data:image/png;base64,CUT'')
   \<and> tick (snd (generateOutfitImage nullContentEnv ''sk-or-1'' photoUrl [jacket, jeans, hat] emptyWorld)) = 15
   \<and> apiPost nullContentEnv 14
       (ComposeRequest ''sk-or-1'' ''Blue Jeans'' ''data:image/png;base64,OUT'' ''data:image/png;base64,CUT'')
       = Some nullAnswer
   \<and> apiOk nullAnswer
   \<and> apiBody nullAnswer = Message \<lparr>content = None, images = []\<rparr>
   \<and> parsingPolicy \<lparr>content = None, images = []\<rparr> = NoImage
   \<and> fst (generateOutfitImage nullContentEnv ''sk-or-1'' photoUrl [jacket, jeans, hat] emptyWorld)
       = Inl TypeError
   \<and> errorItem TypeError = None"
  by (simp add: nullContentEnv_def nullAnswer_def sampleEnv_def emptyWorld_def jacket_def jeans_def hat_def
      imageAnswer_def parsingPolicy_def structuredImage_def textImage_def run_defs)

subsection \<open>The fallback to the original image\<close>

lemma getCacheInfo_trace: "prefix (trace w) (trace (snd (getCacheInfo env w)))"
  by (simp add: getCacheInfo_world)

lemma generateOutfitImage_reaches_step:
  assumes key: "apiKey \<noteq> []"
    and base: "convertUrlToBase64 env inputImageUrl w = (Inr base, w0)"
    and earlier: "generateOutfitLoop env apiKey base before w0 = (Inr partial, w1)"
  shows "prefix (trace (snd (generateOutfitStep env apiKey partial p w1)))
           (trace (snd (generateOutfitImage env apiKey inputImageUrl (before @ p # after) w)))"
proof (cases "generateOutfitStep env apiKey partial p w1")
  case (Pair r w2)
  show ?thesis
  proof (cases r)
    case (Inl err)
    with Pair key base earlier show ?thesis
      by (simp add: generateOutfitImage_def loop_append)
  next
    case (Inr newBase)
    show ?thesis
    proof (cases "generateOutfitLoop env apiKey newBase after w2")
      case L: (Pair r3 w3)
      with loop_trace[of w2 env apiKey newBase after] have p3: "prefix (trace w2) (trace w3)" by simp
      show ?thesis
      proof (cases r3)
        case (Inl err)
        with L Pair Inr key base earlier p3 show ?thesis
          by (simp add: generateOutfitImage_def loop_append)
      next
        case R: (Inr final)
        have "prefix (trace w3) (trace (snd (getCacheInfo env w3)))" by (rule getCacheInfo_trace)
        with p3 have "prefix (trace w2) (trace (snd (getCacheInfo env w3)))"
          by (rule prefix_order.trans)
        with R L Pair Inr key base earlier show ?thesis
          by (auto simp add: generateOutfitImage_def loop_append split: prod.splits sum.splits)
      qed
    qed
  qed
qed

text \<open>
  Claim C2. Let the API key be given, the base photo be converted, and the products before
  \<open>p\<close> be composed into \<open>partial\<close>. If the cache has no image for \<open>p\<close>,
  \<^verbatim>\<open>extractActualProductImage\<close> throws, and the direct fetch of the image URL of \<open>p\<close> yields
  \<open>rawImage\<close>, then the step for \<open>p\<close> is the composition request with \<open>rawImage\<close>: the
  next external call of the run after that fetch is the POST of the composition request
  for \<open>p\<close> with the current base image and \<open>rawImage\<close>.
\<close>

theorem extraction_failure_falls_back_to_raw:
  assumes key: "apiKey \<noteq> []"
    and base: "convertUrlToBase64 env inputImageUrl w = (Inr base, w0)"
    and earlier: "generateOutfitLoop env apiKey base before w0 = (Inr partial, w1)"
    and miss: "getCachedProductImage env (prodImage p) w1 = (Inr cached, w2)" "cachedHit cached = None"
    and failed: "extractActualProductImage env apiKey (prodImage p) (prodName p) w2 = (Inl err, w3)"
    and raw: "convertUrlToBase64 env (prodImage p) w3 = (Inr rawImage, w4)"
  shows "generateOutfitStep env apiKey partial p w1
           = requestComposition env apiKey (prodName p) partial rawImage w4
       \<and> prefix (trace w4 @ [EvPost (ComposeRequest apiKey (prodName p) partial rawImage)])
            (trace (snd (generateOutfitImage env apiKey inputImageUrl (before @ p # after) w)))"
proof -
  have s: "generateOutfitStep env apiKey partial p w1
             = requestComposition env apiKey (prodName p) partial rawImage w4"
    using miss failed raw by (simp add: generateOutfitStep_def resolveProductImage_def)
  have "prefix (trace w4 @ [EvPost (ComposeRequest apiKey (prodName p) partial rawImage)])
          (trace (snd (generateOutfitStep env apiKey partial p w1)))"
    unfolding s by (rule requestComposition_trace)
  then have "prefix (trace w4 @ [EvPost (ComposeRequest apiKey (prodName p) partial rawImage)])
          (trace (snd (generateOutfitImage env apiKey inputImageUrl (before @ p # after) w)))"
    using generateOutfitImage_reaches_step[OF key base earlier, of p after]
    by (rule prefix_order.trans)
  with s show ?thesis by simp
qed

lemma fallback_base: "convertUrlToBase64 extractFailEnv photoUrl emptyWorld
   = (Inr ''data:image/png;base64,AAAA'', logged (EvFetch photoUrl) emptyWorld)"
  by (simp add: extractFailEnv_def sampleEnv_def emptyWorld_def run_defs)

lemma fallback_miss: "getCachedProductImage extractFailEnv (prodImage jacket) (logged (EvFetch photoUrl) emptyWorld)
   = (Inr None, logged (EvStorageGet (cacheKeyOf jacketUrl)) (logged (EvFetch photoUrl) emptyWorld))"
  by (simp add: extractFailEnv_def sampleEnv_def emptyWorld_def jacket_def run_defs)

lemma fallback_extract:
  "fst (extractActualProductImage extractFailEnv ''sk-or-1'' (prodImage jacket) (prodName jacket)
     (logged (EvStorageGet (cacheKeyOf jacketUrl)) (logged (EvFetch photoUrl) emptyWorld)))
   = Inl (ExtractApiError ''Red Jacket'' 500 ''upstream error'')"
  by (simp add: extractFailEnv_def sampleEnv_def emptyWorld_def jacket_def run_defs)

lemma fallback_raw:
  "convertUrlToBase64 extractFailEnv (prodImage jacket)
     (snd (extractActualProductImage extractFailEnv ''sk-or-1'' (prodImage jacket) (prodName jacket)
       (logged (EvStorageGet (cacheKeyOf jacketUrl)) (logged (EvFetch photoUrl) emptyWorld))))
   = (Inr ''data:image/png;base64,AAAA'', afterFallbackWorld)"
  by (simp add: extractFailEnv_def sampleEnv_def emptyWorld_def jacket_def afterFallbackWorld_def run_defs)

theorem extraction_failure_falls_back_to_raw_witness:
  "prefix (trace afterFallbackWorld @
            [EvPost (ComposeRequest ''sk-or-1'' ''Red Jacket'' ''data:image/png;base64,AAAA''
                       ''data:image/png;base64,AAAA'')])
     (trace (snd (generateOutfitImage extractFailEnv ''sk-or-1'' photoUrl [jacket, hat] emptyWorld)))"
proof -
  let ?w2 = "logged (EvStorageGet (cacheKeyOf jacketUrl)) (logged (EvFetch photoUrl) emptyWorld)"
  let ?x = "extractActualProductImage extractFailEnv ''sk-or-1'' (prodImage jacket) (prodName jacket) ?w2"
  have k: "''sk-or-1'' \<noteq> []" by simp
  have l: "generateOutfitLoop extractFailEnv ''sk-or-1'' ''data:image/png;base64,AAAA'' []
             (logged (EvFetch photoUrl) emptyWorld)
           = (Inr ''data:image/png;base64,AAAA'', logged (EvFetch photoUrl) emptyWorld)"
    by simp
  have c: "cachedHit None = None" by (simp add: cachedHit_def)
  have x: "?x = (Inl (ExtractApiError ''Red Jacket'' 500 ''upstream error''), snd ?x)"
    using fallback_extract by (simp add: prod_eq_iff)
  from extraction_failure_falls_back_to_raw [OF k fallback_base l fallback_miss c x fallback_raw, of "[hat]"]
  show ?thesis by (simp add: jacket_def)
qed

subsection \<open>The extractor and its cache\<close>

lemma getCached_result_data:
  assumes "getCachedProductImage env url w = (Inr (Some c), w1)"
  shows "startsWith (hitImage c) ''data:''"
proof -
  from assms obtain v where v: "isDataUrlString (propImage v)" and c: "c = hitOf v"
    by (auto simp add: getCachedProductImage_def storageGet_def Let_def
        split: if_splits option.splits prod.splits sum.splits)
  then show ?thesis
    by (cases v; cases "propImage v") auto
qed

lemma cacheAndReturn_result:
  "cacheAndReturn env url img w = (Inr img, snd (cacheProductImage env url img w))"
  by (simp add: cacheAndReturn_def cacheProductImage_result)

lemma parseExtracted_result_data:
  assumes "parseExtracted env url n msg w = (Inr img, w')"
  shows "startsWith img ''data:''"
proof -
  have cc: "\<And>u w. convertCacheAndReturn env url u w = (Inr img, w') \<Longrightarrow> startsWith img ''data:''"
    by (auto simp add: convertCacheAndReturn_def cacheAndReturn_result
        split: prod.splits sum.splits dest: convert_result_data)
  from assms show ?thesis
    by (auto simp add: parseExtracted_def extractedFromText_def cacheAndReturn_result
        split: option.splits if_splits dest: cc)
qed

lemma requestExtraction_result_data:
  assumes "requestExtraction env apiKey url n b w = (Inr img, w')"
  shows "startsWith img ''data:''"
  using assms
  by (auto simp add: requestExtraction_def Let_def split: option.splits if_splits jsonBody.splits
      dest: parseExtracted_result_data)

lemma cachedHit_Some: "cachedHit c = Some img \<Longrightarrow> \<exists>h. c = Some h \<and> hitImage h = img"
  by (auto simp add: cachedHit_def split: option.splits if_splits)

lemma extract_result_data:
  assumes "extractActualProductImage env apiKey url n w = (Inr img, w')"
  shows "startsWith img ''data:''"
proof (cases "getCachedProductImage env url w")
  case (Pair r w1)
  obtain c where r: "r = Inr c" using getCached_never_throws[of env url w] Pair by auto
  show ?thesis
  proof (cases "cachedHit c")
    case (Some hit)
    with assms Pair r have "hit = img" by (simp add: extractActualProductImage_def)
    with Some obtain h where "c = Some h" "hitImage h = img" using cachedHit_Some by blast
    with Pair r show ?thesis using getCached_result_data by blast
  next
    case None
    with assms Pair r show ?thesis
      by (auto simp add: extractActualProductImage_def cacheProductImage_result
          split: prod.splits sum.splits dest: requestExtraction_result_data)
  qed
qed

lemma extract_hit:
  assumes entry: "map_of (store w) (cacheKeyOf url) = Some (CacheData (JStr img) ts u)"
    and valid: "startsWith img ''data:''"
    and readable: "\<not> storageFault env (tick w)"
  shows "extractActualProductImage env apiKey url n w = (Inr img, logged (EvStorageGet (cacheKeyOf url)) w)"
proof -
  have "getCachedProductImage env url w =
          (Inr (Some (hitOf (CacheData (JStr img) ts u))), logged (EvStorageGet (cacheKeyOf url)) w)"
    using getCached_hit[OF entry _ readable] valid by simp
  moreover have "img \<noteq> []" using valid by (rule startsWith_data_nonempty)
  ultimately show ?thesis
    by (simp add: extractActualProductImage_def cachedHit_def)
qed

text \<open>
  Claim C5. Let a first call of \<^verbatim>\<open>extractActualProductImage\<close> for a URL return \<open>img\<close> and
  leave \<open>img\<close> in the cache under the key of the URL, and let the cache be readable. Then
  a second call for the same URL returns \<open>img\<close> after a single storage read: it makes no
  remote synthesis call (and no other network call).
\<close>

theorem warm_cache_extraction:
  assumes first: "extractActualProductImage env apiKey url n w = (Inr img, w1)"
    and populated: "map_of (store w1) (cacheKeyOf url) = Some (CacheData (JStr img) ts u)"
    and readable: "\<not> storageFault env (tick w1)"
  shows "extractActualProductImage env apiKey url n w1
           = (Inr img, logged (EvStorageGet (cacheKeyOf url)) w1)
       \<and> synthesisCalls (snd (extractActualProductImage env apiKey url n w1)) = synthesisCalls w1"
proof -
  have "startsWith img ''data:''" using first by (rule extract_result_data)
  then have "extractActualProductImage env apiKey url n w1
           = (Inr img, logged (EvStorageGet (cacheKeyOf url)) w1)"
    by (rule extract_hit[OF populated _ readable])
  then show ?thesis by (simp add: synthesisCalls_logged)
qed

lemma sample_extraction:
  "extractActualProductImage jeansFailEnv ''sk-or-1'' jacketUrl ''Red Jacket'' emptyWorld
     = (Inr ''data:image/png;base64,CUT'', afterExtractionWorld)"
  by (simp add: jeansFailEnv_def sampleEnv_def emptyWorld_def imageAnswer_def
      afterExtractionWorld_def run_defs)

theorem warm_cache_extraction_witness:
  "extractActualProductImage jeansFailEnv ''sk-or-1'' jacketUrl ''Red Jacket'' afterExtractionWorld
     = (Inr ''data:image/png;base64,CUT'', logged (EvStorageGet (cacheKeyOf jacketUrl)) afterExtractionWorld)
   \<and> synthesisCalls (snd (extractActualProductImage jeansFailEnv ''sk-or-1'' jacketUrl ''Red Jacket''
                            afterExtractionWorld)) = 1"
proof -
  have p: "map_of (store afterExtractionWorld) (cacheKeyOf jacketUrl)
             = Some (CacheData (JStr ''data:image/png;base64,CUT'') (Some 100000000) jacketUrl)"
    by (simp add: afterExtractionWorld_def)
  have r: "\<not> storageFault jeansFailEnv (tick afterExtractionWorld)"
    by (simp add: jeansFailEnv_def sampleEnv_def)
  have s: "synthesisCalls afterExtractionWorld = 1"
    by (simp add: synthesisCalls_def afterExtractionWorld_def)
  from warm_cache_extraction [OF sample_extraction p r] s show ?thesis
    by (simp add: synthesisCalls_logged)
qed

subsection \<open>The order of caching in the extractor\<close>

lemma cacheProductImage_store:
  assumes "\<not> storageFault env (tick w)"
  shows "map_of (store (snd (cacheProductImage env url img w))) (cacheKeyOf url)
           = Some (CacheData (JStr img) (Some (clock env (tick w))) url)"
  using assms by (simp add: cacheProductImage_result storageSet_def)

lemma convert_store: "convertUrlToBase64 env u w = (r, w') \<Longrightarrow> store w' = store w"
  using convert_world[of env u w] by simp

lemma convertCacheAndReturn_store:
  assumes h: "healthy env"
  shows "case convertCacheAndReturn env url u w of
           (Inl err, w') \<Rightarrow> store w' = store w
         | (Inr img, w') \<Rightarrow>
             (\<exists>ts. map_of (store w') (cacheKeyOf url) = Some (CacheData (JStr img) ts url))"
proof (cases "convertUrlToBase64 env u w")
  case (Pair r w1)
  show ?thesis
  proof (cases r)
    case (Inl err)
    with Pair show ?thesis by (simp add: convertCacheAndReturn_def convert_store)
  next
    case (Inr img)
    from h have "\<not> storageFault env (tick w1)" by (simp add: healthy_def)
    from cacheProductImage_store[OF this, where url = url and img = img] Pair Inr show ?thesis
      by (simp add: convertCacheAndReturn_def cacheAndReturn_result)
  qed
qed

lemma cacheAndReturn_store:
  assumes h: "healthy env"
  shows "case cacheAndReturn env url img w of
           (Inl err, w') \<Rightarrow> store w' = store w
         | (Inr img', w') \<Rightarrow>
             (\<exists>ts. map_of (store w') (cacheKeyOf url) = Some (CacheData (JStr img') ts url))"
proof -
  from h have "\<not> storageFault env (tick w)" by (simp add: healthy_def)
  from cacheProductImage_store[OF this, where url = url and img = img] show ?thesis
    by (simp add: cacheAndReturn_result)
qed

lemma parseExtracted_store:
  assumes h: "healthy env"
  shows "case parseExtracted env url n msg w of
           (Inl err, w') \<Rightarrow> store w' = store w
         | (Inr img, w') \<Rightarrow>
             (\<exists>ts. map_of (store w') (cacheKeyOf url) = Some (CacheData (JStr img) ts url))"
  using convertCacheAndReturn_store[OF h] cacheAndReturn_store[OF h]
  by (simp add: parseExtracted_def extractedFromText_def split: option.splits)

lemma requestExtraction_store:
  assumes h: "healthy env"
  shows "case requestExtraction env apiKey url n b w of
           (Inl err, w') \<Rightarrow> store w' = store w
         | (Inr img, w') \<Rightarrow>
             (\<exists>ts. map_of (store w') (cacheKeyOf url) = Some (CacheData (JStr img) ts url))"
proof (cases "apiPost env (tick w) (ExtractRequest apiKey n b)")
  case None
  then show ?thesis by (simp add: requestExtraction_def Let_def)
next
  case (Some response)
  show ?thesis
  proof (cases "apiOk response")
    case False
    with Some show ?thesis by (simp add: requestExtraction_def Let_def)
  next
    case True
    show ?thesis
    proof (cases "apiBody response")
      case NotJson
      with Some True show ?thesis by (simp add: requestExtraction_def Let_def)
    next
      case NoMessage
      with Some True show ?thesis by (simp add: requestExtraction_def Let_def)
    next
      case (Message msg)
      with \<open>apiPost env (tick w) (ExtractRequest apiKey n b) = Some response\<close> True
      have "requestExtraction env apiKey url n b w
              = parseExtracted env url n msg (logged (EvPost (ExtractRequest apiKey n b)) w)"
        by (simp add: requestExtraction_def Let_def)
      with parseExtracted_store[OF h, where url = url and n = n and msg = msg
            and w = "logged (EvPost (ExtractRequest apiKey n b)) w"]
      show ?thesis by (auto split: prod.splits sum.splits)
    qed
  qed
qed

lemma parseExtracted_policy:
  "parseExtracted env url n msg w =
     (case parsingPolicy msg of
        UseDirectly u \<Rightarrow> cacheAndReturn env url u w
      | FetchAndConvert u \<Rightarrow> convertCacheAndReturn env url u w
      | NoImage \<Rightarrow>
          (Inl (case content msg of None \<Rightarrow> TypeError | Some str \<Rightarrow> FailedToExtract n), w))"
  by (auto simp add: parseExtracted_def extractedFromText_def parsingPolicy_def structuredImage_def
      textImage_def structuredUrl_def split: list.splits option.splits)

lemma cacheProductImage_tick: "tick (snd (cacheProductImage env url img w)) = Suc (tick w)"
  by (simp add: cacheProductImage_result storageSet_tick)

lemma cacheAndReturn_healthy:
  assumes "healthy env"
  shows "fst (cacheAndReturn env url img w) = Inr img
       \<and> map_of (store (snd (cacheAndReturn env url img w))) (cacheKeyOf url)
           = Some (CacheData (JStr img) (Some (clock env (tick w))) url)"
proof -
  from assms have "\<not> storageFault env (tick w)" by (simp add: healthy_def)
  from cacheProductImage_store[OF this, where url = url and img = img] show ?thesis
    by (simp add: cacheAndReturn_result)
qed

lemma convertCacheAndReturn_healthy:
  assumes "healthy env"
  shows "case convertUrlToBase64 env u w of
           (Inr img, w5) \<Rightarrow>
             fst (convertCacheAndReturn env url u w) = Inr img
             \<and> map_of (store (snd (convertCacheAndReturn env url u w))) (cacheKeyOf url)
                 = Some (CacheData (JStr img) (Some (clock env (tick w5))) url)
         | (Inl err, w5) \<Rightarrow> convertCacheAndReturn env url u w = (Inl err, w5)"
  using cacheAndReturn_healthy[OF assms]
  by (auto simp add: convertCacheAndReturn_def split: prod.splits sum.splits)

lemma requestExtraction_answer:
  assumes "apiPost env (tick w) (ExtractRequest apiKey n b) = Some response"
    and "apiOk response" and "apiBody response = Message msg"
  shows "requestExtraction env apiKey url n b w
           = parseExtracted env url n msg (logged (EvPost (ExtractRequest apiKey n b)) w)"
  using assms by (simp add: requestExtraction_def Let_def)

lemma requestExtraction_healthy:
  assumes h: "healthy env"
    and "apiPost env (tick w) (ExtractRequest apiKey n b) = Some response"
    and "apiOk response" and "apiBody response = Message msg"
  shows "case parsingPolicy msg of
           UseDirectly u \<Rightarrow>
             fst (requestExtraction env apiKey url n b w) = Inr u
             \<and> map_of (store (snd (requestExtraction env apiKey url n b w))) (cacheKeyOf url)
                 = Some (CacheData (JStr u) (Some (clock env (Suc (tick w)))) url)
         | FetchAndConvert u \<Rightarrow>
             (case convertUrlToBase64 env u (logged (EvPost (ExtractRequest apiKey n b)) w) of
                (Inr img, w5) \<Rightarrow>
                  fst (requestExtraction env apiKey url n b w) = Inr img
                  \<and> map_of (store (snd (requestExtraction env apiKey url n b w))) (cacheKeyOf url)
                      = Some (CacheData (JStr img) (Some (clock env (tick w5))) url)
              | (Inl err, w5) \<Rightarrow> requestExtraction env apiKey url n b w = (Inl err, w5))
         | NoImage \<Rightarrow>
             requestExtraction env apiKey url n b w
               = (Inl (case content msg of None \<Rightarrow> TypeError | Some str \<Rightarrow> FailedToExtract n),
                  logged (EvPost (ExtractRequest apiKey n b)) w)"
proof (cases "parsingPolicy msg")
  case (UseDirectly u)
  with cacheAndReturn_healthy[OF h, where url = url and img = u
      and w = "logged (EvPost (ExtractRequest apiKey n b)) w"]
  show ?thesis
    by (simp add: requestExtraction_answer[OF assms(2-4)] parseExtracted_policy)
next
  case (FetchAndConvert u)
  with convertCacheAndReturn_healthy[OF h, where url = url and u = u
      and w = "logged (EvPost (ExtractRequest apiKey n b)) w"]
  show ?thesis
    by (auto simp add: requestExtraction_answer[OF assms(2-4)] parseExtracted_policy
        split: prod.splits sum.splits)
next
  case NoImage
  then show ?thesis
    by (simp add: requestExtraction_answer[OF assms(2-4)] parseExtracted_policy)
qed

lemma policy_image: "parsingPolicy \<lparr>content = Some [], images = [ImagePart (Some ''data:image/png;base64,CUT'')]\<rparr>
   = UseDirectly ''data:image/png;base64,CUT''"
  by (simp add: parsingPolicy_def structuredImage_def textImage_def run_defs)

lemma policy_remote: "parsingPolicy remoteMessage = FetchAndConvert ''https://cdn.example/gen.png''"
  by (simp add: remoteMessage_def parsingPolicy_def structuredImage_def textImage_def run_defs)

text \<open>
  Claim C6. Let the lookup of a URL miss, the fetch of the URL yield \<open>raw\<close>, and the
  storage be healthy. Then \<^verbatim>\<open>extractActualProductImage\<close> first stores \<open>raw\<close> under the key of
  the URL and only then posts the extraction request. When the request is answered with
  success status and a message, the call follows the parsing policy: an image given
  directly is returned and stored under the key of the URL, stamped with the clock at that
  write; an image given by a URL is fetched first and, when the fetch succeeds, returned
  and stored likewise, and when the fetch fails the call fails with the error of the fetch;
  a message without image makes the call fail. In every case, when the call succeeds with
  \<open>img\<close>, the entry under that key holds \<open>img\<close> afterwards: the extracted image has replaced
  the raw one. When it fails, the entry still holds \<open>raw\<close>, and a retry returns \<open>raw\<close> after
  a single storage read, without fetching the image again.
\<close>

theorem extraction_caching_order:
  assumes miss: "getCachedProductImage env url w = (Inr cached, w1)" "cachedHit cached = None"
    and fetched: "convertUrlToBase64 env url w1 = (Inr raw, w2)"
    and h: "healthy env"
  shows "prefix (trace w2 @ [EvStorageSet (cacheKeyOf url) (CacheData (JStr raw) (Some (clock env (tick w2))) url),
                             EvPost (ExtractRequest apiKey n raw)])
                (trace (snd (extractActualProductImage env apiKey url n w)))
       \<and> (\<forall>response msg.
             apiPost env (Suc (tick w2)) (ExtractRequest apiKey n raw) = Some response
             \<and> apiOk response \<and> apiBody response = Message msg \<longrightarrow>
             (case parsingPolicy msg of
                UseDirectly u \<Rightarrow>
                  fst (extractActualProductImage env apiKey url n w) = Inr u
                  \<and> map_of (store (snd (extractActualProductImage env apiKey url n w))) (cacheKeyOf url)
                      = Some (CacheData (JStr u) (Some (clock env (Suc (Suc (tick w2))))) url)
              | FetchAndConvert u \<Rightarrow>
                  (case convertUrlToBase64 env u
                          (logged (EvPost (ExtractRequest apiKey n raw))
                             (snd (cacheProductImage env url raw w2))) of
                     (Inr img, w5) \<Rightarrow>
                       fst (extractActualProductImage env apiKey url n w) = Inr img
                       \<and> map_of (store (snd (extractActualProductImage env apiKey url n w))) (cacheKeyOf url)
                           = Some (CacheData (JStr img) (Some (clock env (tick w5))) url)
                   | (Inl err, w5) \<Rightarrow> extractActualProductImage env apiKey url n w = (Inl err, w5))
              | NoImage \<Rightarrow>
                  extractActualProductImage env apiKey url n w
                    = (Inl (case content msg of None \<Rightarrow> TypeError | Some str \<Rightarrow> FailedToExtract n),
                       logged (EvPost (ExtractRequest apiKey n raw))
                         (snd (cacheProductImage env url raw w2)))))
       \<and> (case extractActualProductImage env apiKey url n w of
            (Inr img, w') \<Rightarrow>
              (\<exists>ts. map_of (store w') (cacheKeyOf url) = Some (CacheData (JStr img) ts url))
          | (Inl err, w') \<Rightarrow>
              map_of (store w') (cacheKeyOf url)
                = Some (CacheData (JStr raw) (Some (clock env (tick w2))) url)
              \<and> extractActualProductImage env apiKey url n w'
                  = (Inr raw, logged (EvStorageGet (cacheKeyOf url)) w'))"
proof -
  let ?entry = "CacheData (JStr raw) (Some (clock env (tick w2))) url"
  let ?w3 = "snd (cacheProductImage env url raw w2)"
  let ?x = "requestExtraction env apiKey url n raw ?w3"
  have e: "extractActualProductImage env apiKey url n w = ?x"
    using miss fetched by (simp add: extractActualProductImage_def cacheProductImage_result)
  have ok2: "\<not> storageFault env (tick w2)" using h by (simp add: healthy_def)
  have s3: "map_of (store ?w3) (cacheKeyOf url) = Some ?entry"
    using ok2 by (rule cacheProductImage_store)
  have t3: "trace ?w3 = trace w2 @ [EvStorageSet (cacheKeyOf url) ?entry]"
    by (rule cacheProductImage_trace)
  have "prefix (trace ?w3 @ [EvPost (ExtractRequest apiKey n raw)]) (trace (snd ?x))"
    by (rule requestExtraction_trace)
  then have order: "prefix (trace w2 @ [EvStorageSet (cacheKeyOf url) ?entry,
                                        EvPost (ExtractRequest apiKey n raw)])
                      (trace (snd (extractActualProductImage env apiKey url n w)))"
    by (simp add: e t3)
  have outcome: "case ?x of
            (Inr img, w') \<Rightarrow>
              (\<exists>ts. map_of (store w') (cacheKeyOf url) = Some (CacheData (JStr img) ts url))
          | (Inl err, w') \<Rightarrow>
              map_of (store w') (cacheKeyOf url) = Some ?entry
              \<and> extractActualProductImage env apiKey url n w'
                  = (Inr raw, logged (EvStorageGet (cacheKeyOf url)) w')"
  proof (cases ?x)
    case (Pair r w')
    show ?thesis
    proof (cases r)
      case (Inr img)
      with Pair requestExtraction_store[OF h, where apiKey = apiKey and url = url and n = n and b = raw and w = "?w3"] show ?thesis by simp
    next
      case (Inl err)
      with Pair requestExtraction_store[OF h, where apiKey = apiKey and url = url and n = n and b = raw and w = "?w3"]
      have st: "store w' = store ?w3" by simp
      with s3 have en: "map_of (store w') (cacheKeyOf url) = Some ?entry" by simp
      have valid: "startsWith raw ''data:''" using fetched by (rule convert_result_data)
      have "\<not> storageFault env (tick w')" using h by (simp add: healthy_def)
      from extract_hit[OF en valid this] en Pair Inl show ?thesis by simp
    qed
  qed
  have k3: "tick ?w3 = Suc (tick w2)" by (rule cacheProductImage_tick)
  have answer: "\<forall>response msg.
             apiPost env (Suc (tick w2)) (ExtractRequest apiKey n raw) = Some response
             \<and> apiOk response \<and> apiBody response = Message msg \<longrightarrow>
             (case parsingPolicy msg of
                UseDirectly u \<Rightarrow>
                  fst (requestExtraction env apiKey url n raw ?w3) = Inr u
                  \<and> map_of (store (snd (requestExtraction env apiKey url n raw ?w3))) (cacheKeyOf url)
                      = Some (CacheData (JStr u) (Some (clock env (Suc (Suc (tick w2))))) url)
              | FetchAndConvert u \<Rightarrow>
                  (case convertUrlToBase64 env u (logged (EvPost (ExtractRequest apiKey n raw)) ?w3) of
                     (Inr img, w5) \<Rightarrow>
                       fst (requestExtraction env apiKey url n raw ?w3) = Inr img
                       \<and> map_of (store (snd (requestExtraction env apiKey url n raw ?w3))) (cacheKeyOf url)
                           = Some (CacheData (JStr img) (Some (clock env (tick w5))) url)
                   | (Inl err, w5) \<Rightarrow> requestExtraction env apiKey url n raw ?w3 = (Inl err, w5))
              | NoImage \<Rightarrow>
                  requestExtraction env apiKey url n raw ?w3
                    = (Inl (case content msg of None \<Rightarrow> TypeError | Some str \<Rightarrow> FailedToExtract n),
                       logged (EvPost (ExtractRequest apiKey n raw)) ?w3))"
  proof (intro allI impI)
    fix response msg
    assume a: "apiPost env (Suc (tick w2)) (ExtractRequest apiKey n raw) = Some response
             \<and> apiOk response \<and> apiBody response = Message msg"
    then have p: "apiPost env (tick ?w3) (ExtractRequest apiKey n raw) = Some response"
      by (simp add: k3)
    from requestExtraction_healthy[OF h p, of msg url] a
    show "case parsingPolicy msg of
                UseDirectly u \<Rightarrow>
                  fst (requestExtraction env apiKey url n raw ?w3) = Inr u
                  \<and> map_of (store (snd (requestExtraction env apiKey url n raw ?w3))) (cacheKeyOf url)
                      = Some (CacheData (JStr u) (Some (clock env (Suc (Suc (tick w2))))) url)
              | FetchAndConvert u \<Rightarrow>
                  (case convertUrlToBase64 env u (logged (EvPost (ExtractRequest apiKey n raw)) ?w3) of
                     (Inr img, w5) \<Rightarrow>
                       fst (requestExtraction env apiKey url n raw ?w3) = Inr img
                       \<and> map_of (store (snd (requestExtraction env apiKey url n raw ?w3))) (cacheKeyOf url)
                           = Some (CacheData (JStr img) (Some (clock env (tick w5))) url)
                   | (Inl err, w5) \<Rightarrow> requestExtraction env apiKey url n raw ?w3 = (Inl err, w5))
              | NoImage \<Rightarrow>
                  requestExtraction env apiKey url n raw ?w3
                    = (Inl (case content msg of None \<Rightarrow> TypeError | Some str \<Rightarrow> FailedToExtract n),
                       logged (EvPost (ExtractRequest apiKey n raw)) ?w3)"
      by (simp add: k3 cong: resolution.case_cong)
  qed
  from order answer outcome show ?thesis unfolding e by simp
qed


lemma sample_extraction_fails:
  "fst (extractActualProductImage extractFailEnv ''sk-or-1'' jacketUrl ''Red Jacket'' emptyWorld)
     = Inl (ExtractApiError ''Red Jacket'' 500 ''upstream error'')"
  by (simp add: extractFailEnv_def sampleEnv_def emptyWorld_def run_defs)

theorem extraction_caching_order_witness:
  "fst (extractActualProductImage jeansFailEnv ''sk-or-1'' jacketUrl ''Red Jacket'' emptyWorld)
     = Inr ''data:image/png;base64,CUT''
   \<and> map_of (store (snd (extractActualProductImage jeansFailEnv ''sk-or-1'' jacketUrl ''Red Jacket'' emptyWorld)))
        (cacheKeyOf jacketUrl)
       = Some (CacheData (JStr ''data:image/png;base64,CUT'') (Some 100000000) jacketUrl)
   \<and> fst (extractActualProductImage cdnEnv ''sk-or-1'' jacketUrl ''Red Jacket'' emptyWorld)
       = Inr ''data:image/png;base64,GGGG''
   \<and> map_of (store (snd (extractActualProductImage cdnEnv ''sk-or-1'' jacketUrl ''Red Jacket'' emptyWorld)))
        (cacheKeyOf jacketUrl)
       = Some (CacheData (JStr ''data:image/png;base64,GGGG'') (Some 100000000) jacketUrl)
   \<and> prefix [EvStorageGet (cacheKeyOf jacketUrl), EvFetch jacketUrl,
           EvStorageSet (cacheKeyOf jacketUrl)
             (CacheData (JStr ''data:image/png;base64,AAAA'') (Some 100000000) jacketUrl),
           EvPost (ExtractRequest ''sk-or-1'' ''Red Jacket'' ''data:image/png;base64,AAAA'')]
     (trace (snd (extractActualProductImage extractFailEnv ''sk-or-1'' jacketUrl ''Red Jacket'' emptyWorld)))
   \<and> fst (extractActualProductImage extractFailEnv ''sk-or-1'' jacketUrl ''Red Jacket''
            (snd (extractActualProductImage extractFailEnv ''sk-or-1'' jacketUrl ''Red Jacket'' emptyWorld)))
       = Inr ''data:image/png;base64,AAAA''"
proof -
  let ?w1 = "logged (EvStorageGet (cacheKeyOf jacketUrl)) emptyWorld"
  let ?w2 = "logged (EvFetch jacketUrl) ?w1"
  let ?raw = "''data:image/png;base64,AAAA''"
  have c: "cachedHit None = None" by (simp add: cachedHit_def)
  have direct: "fst (extractActualProductImage jeansFailEnv ''sk-or-1'' jacketUrl ''Red Jacket'' emptyWorld)
       = Inr ''data:image/png;base64,CUT''
     \<and> map_of (store (snd (extractActualProductImage jeansFailEnv ''sk-or-1'' jacketUrl ''Red Jacket'' emptyWorld)))
          (cacheKeyOf jacketUrl)
         = Some (CacheData (JStr ''data:image/png;base64,CUT'') (Some 100000000) jacketUrl)"
  proof -
    have m: "getCachedProductImage jeansFailEnv jacketUrl emptyWorld = (Inr None, ?w1)"
      by (simp add: jeansFailEnv_def sampleEnv_def emptyWorld_def run_defs)
    have f: "convertUrlToBase64 jeansFailEnv jacketUrl ?w1 = (Inr ?raw, ?w2)"
      by (simp add: jeansFailEnv_def sampleEnv_def emptyWorld_def run_defs)
    have h: "healthy jeansFailEnv"
      by (simp add: healthy_def jeansFailEnv_def sampleEnv_def)
    have a: "apiPost jeansFailEnv (Suc (tick ?w2)) (ExtractRequest ''sk-or-1'' ''Red Jacket'' ?raw)
               = Some (imageAnswer ''data:image/png;base64,CUT'')
             \<and> apiOk (imageAnswer ''data:image/png;base64,CUT'')
             \<and> apiBody (imageAnswer ''data:image/png;base64,CUT'')
                 = Message \<lparr>content = Some [], images = [ImagePart (Some ''data:image/png;base64,CUT'')]\<rparr>"
      by (simp add: jeansFailEnv_def sampleEnv_def imageAnswer_def)
    have k: "\<And>t. clock jeansFailEnv t = 100000000"
      by (simp add: jeansFailEnv_def sampleEnv_def)
    from extraction_caching_order [OF m c f h, of "''sk-or-1''" "''Red Jacket''"]
    have "\<forall>response msg.
             apiPost jeansFailEnv (Suc (tick ?w2)) (ExtractRequest ''sk-or-1'' ''Red Jacket'' ?raw) = Some response
             \<and> apiOk response \<and> apiBody response = Message msg \<longrightarrow>
             (case parsingPolicy msg of
                UseDirectly u \<Rightarrow>
                  fst (extractActualProductImage jeansFailEnv ''sk-or-1'' jacketUrl ''Red Jacket'' emptyWorld) = Inr u
                  \<and> map_of (store (snd (extractActualProductImage jeansFailEnv ''sk-or-1'' jacketUrl ''Red Jacket'' emptyWorld)))
                       (cacheKeyOf jacketUrl)
                      = Some (CacheData (JStr u) (Some (clock jeansFailEnv (Suc (Suc (tick ?w2))))) jacketUrl)
              | FetchAndConvert u \<Rightarrow>
                  (case convertUrlToBase64 jeansFailEnv u
                          (logged (EvPost (ExtractRequest ''sk-or-1'' ''Red Jacket'' ?raw))
                             (snd (cacheProductImage jeansFailEnv jacketUrl ?raw ?w2))) of
                     (Inr img, w5) \<Rightarrow>
                       fst (extractActualProductImage jeansFailEnv ''sk-or-1'' jacketUrl ''Red Jacket'' emptyWorld) = Inr img
                       \<and> map_of (store (snd (extractActualProductImage jeansFailEnv ''sk-or-1'' jacketUrl ''Red Jacket'' emptyWorld)))
                            (cacheKeyOf jacketUrl)
                           = Some (CacheData (JStr img) (Some (clock jeansFailEnv (tick w5))) jacketUrl)
                   | (Inl err, w5) \<Rightarrow>
                       extractActualProductImage jeansFailEnv ''sk-or-1'' jacketUrl ''Red Jacket'' emptyWorld = (Inl err, w5))
              | NoImage \<Rightarrow>
                  extractActualProductImage jeansFailEnv ''sk-or-1'' jacketUrl ''Red Jacket'' emptyWorld
                    = (Inl (case content msg of None \<Rightarrow> TypeError | Some str \<Rightarrow> FailedToExtract ''Red Jacket''),
                       logged (EvPost (ExtractRequest ''sk-or-1'' ''Red Jacket'' ?raw))
                         (snd (cacheProductImage jeansFailEnv jacketUrl ?raw ?w2))))"
      by (rule conjunct1[OF conjunct2])
    from this[rule_format, OF a] show ?thesis
      by (simp add: policy_image k)
  qed
  have remote: "fst (extractActualProductImage cdnEnv ''sk-or-1'' jacketUrl ''Red Jacket'' emptyWorld)
       = Inr ''data:image/png;base64,GGGG''
     \<and> map_of (store (snd (extractActualProductImage cdnEnv ''sk-or-1'' jacketUrl ''Red Jacket'' emptyWorld)))
          (cacheKeyOf jacketUrl)
         = Some (CacheData (JStr ''data:image/png;base64,GGGG'') (Some 100000000) jacketUrl)"
  proof -
    have m: "getCachedProductImage cdnEnv jacketUrl emptyWorld = (Inr None, ?w1)"
      by (simp add: cdnEnv_def answerEnv_def sampleEnv_def emptyWorld_def run_defs)
    have f: "convertUrlToBase64 cdnEnv jacketUrl ?w1 = (Inr ?raw, ?w2)"
      by (simp add: cdnEnv_def answerEnv_def sampleEnv_def emptyWorld_def jacketUrl_def run_defs)
    have h: "healthy cdnEnv"
      by (simp add: healthy_def cdnEnv_def answerEnv_def sampleEnv_def)
    have a: "apiPost cdnEnv (Suc (tick ?w2)) (ExtractRequest ''sk-or-1'' ''Red Jacket'' ?raw)
               = Some (answerWith remoteMessage)
             \<and> apiOk (answerWith remoteMessage)
             \<and> apiBody (answerWith remoteMessage) = Message remoteMessage"
      by (simp add: cdnEnv_def answerEnv_def sampleEnv_def answerWith_def)
    have k: "\<And>t. clock cdnEnv t = 100000000"
      by (simp add: cdnEnv_def answerEnv_def sampleEnv_def)
    have g: "fst (convertUrlToBase64 cdnEnv ''https://cdn.example/gen.png''
                (logged (EvPost (ExtractRequest ''sk-or-1'' ''Red Jacket'' ?raw))
                   (snd (cacheProductImage cdnEnv jacketUrl ?raw ?w2))))
             = Inr ''data:image/png;base64,GGGG''"
      by (simp add: cdnEnv_def answerEnv_def sampleEnv_def emptyWorld_def run_defs)
    from extraction_caching_order [OF m c f h, of "''sk-or-1''" "''Red Jacket''"]
    have "\<forall>response msg.
             apiPost cdnEnv (Suc (tick ?w2)) (ExtractRequest ''sk-or-1'' ''Red Jacket'' ?raw) = Some response
             \<and> apiOk response \<and> apiBody response = Message msg \<longrightarrow>
             (case parsingPolicy msg of
                UseDirectly u \<Rightarrow>
                  fst (extractActualProductImage cdnEnv ''sk-or-1'' jacketUrl ''Red Jacket'' emptyWorld) = Inr u
                  \<and> map_of (store (snd (extractActualProductImage cdnEnv ''sk-or-1'' jacketUrl ''Red Jacket'' emptyWorld)))
                       (cacheKeyOf jacketUrl)
                      = Some (CacheData (JStr u) (Some (clock cdnEnv (Suc (Suc (tick ?w2))))) jacketUrl)
              | FetchAndConvert u \<Rightarrow>
                  (case convertUrlToBase64 cdnEnv u
                          (logged (EvPost (ExtractRequest ''sk-or-1'' ''Red Jacket'' ?raw))
                             (snd (cacheProductImage cdnEnv jacketUrl ?raw ?w2))) of
                     (Inr img, w5) \<Rightarrow>
                       fst (extractActualProductImage cdnEnv ''sk-or-1'' jacketUrl ''Red Jacket'' emptyWorld) = Inr img
                       \<and> map_of (store (snd (extractActualProductImage cdnEnv ''sk-or-1'' jacketUrl ''Red Jacket'' emptyWorld)))
                            (cacheKeyOf jacketUrl)
                           = Some (CacheData (JStr img) (Some (clock cdnEnv (tick w5))) jacketUrl)
                   | (Inl err, w5) \<Rightarrow>
                       extractActualProductImage cdnEnv ''sk-or-1'' jacketUrl ''Red Jacket'' emptyWorld = (Inl err, w5))
              | NoImage \<Rightarrow>
                  extractActualProductImage cdnEnv ''sk-or-1'' jacketUrl ''Red Jacket'' emptyWorld
                    = (Inl (case content msg of None \<Rightarrow> TypeError | Some str \<Rightarrow> FailedToExtract ''Red Jacket''),
                       logged (EvPost (ExtractRequest ''sk-or-1'' ''Red Jacket'' ?raw))
                         (snd (cacheProductImage cdnEnv jacketUrl ?raw ?w2))))"
      by (rule conjunct1[OF conjunct2])
    from this[rule_format, OF a] g show ?thesis
      by (auto simp add: policy_remote k split: prod.splits sum.splits)
  qed
  have failing: "prefix [EvStorageGet (cacheKeyOf jacketUrl), EvFetch jacketUrl,
           EvStorageSet (cacheKeyOf jacketUrl)
             (CacheData (JStr ''data:image/png;base64,AAAA'') (Some 100000000) jacketUrl),
           EvPost (ExtractRequest ''sk-or-1'' ''Red Jacket'' ''data:image/png;base64,AAAA'')]
     (trace (snd (extractActualProductImage extractFailEnv ''sk-or-1'' jacketUrl ''Red Jacket'' emptyWorld)))
   \<and> fst (extractActualProductImage extractFailEnv ''sk-or-1'' jacketUrl ''Red Jacket''
            (snd (extractActualProductImage extractFailEnv ''sk-or-1'' jacketUrl ''Red Jacket'' emptyWorld)))
       = Inr ''data:image/png;base64,AAAA''"
  proof -
    have m: "getCachedProductImage extractFailEnv jacketUrl emptyWorld = (Inr None, ?w1)"
      by (simp add: extractFailEnv_def sampleEnv_def emptyWorld_def run_defs)
    have f: "convertUrlToBase64 extractFailEnv jacketUrl ?w1 = (Inr ?raw, ?w2)"
      by (simp add: extractFailEnv_def sampleEnv_def emptyWorld_def run_defs)
    have h: "healthy extractFailEnv"
      by (simp add: healthy_def extractFailEnv_def sampleEnv_def)
    from extraction_caching_order [OF m c f h, of "''sk-or-1''" "''Red Jacket''"] sample_extraction_fails
    show ?thesis
      by (auto simp add: emptyWorld_def extractFailEnv_def sampleEnv_def split: prod.splits sum.splits)
  qed
  from direct remote failing show ?thesis by simp
qed

end
